theory Spec2Isabelle
  imports Main "HOL-Library.AList" "HOL-Library.Sublist"
begin

section \<open>The property graph (database.py, bootstrap main.py)\<close>

text \<open>
  A vertex carries a label and the properties the API functions read. The bootstrap
  function writes each property once per vertex: strings for \<open>name\<close> and the three
  identifier keys, a boolean for \<open>isPublic\<close>. A property that a vertex does not have
  is \<open>None\<close>. (The bootstrap also writes \<open>ownerId\<close> and \<open>ownerName\<close>, which no
  query of database.py reads.)
\<close>

record vertex =
  v_label :: string
  v_name :: "string option"
  v_userId :: "string option"
  v_directoryId :: "string option"
  v_videoId :: "string option"
  v_isPublic :: "bool option"

text \<open>
  The graph: the vertex identities in the order the store iterates them, the data of
  each vertex, and the labelled edges (source, label, target).
\<close>

record graph =
  vertices :: "nat list"
  vertex_of :: "nat \<Rightarrow> vertex"
  edges :: "(nat \<times> string \<times> nat) list"

subsection \<open>Traversal steps\<close>

text \<open>A traversal is the list of its traversers, each sitting on a vertex.\<close>

definition V :: "graph \<Rightarrow> nat list" where
  "V g = vertices g"

definition hasLabel :: "graph \<Rightarrow> string \<Rightarrow> nat list \<Rightarrow> nat list" where
  "hasLabel g l ts = filter (\<lambda>t. v_label (vertex_of g t) = l) ts"

definition has :: "graph \<Rightarrow> (vertex \<Rightarrow> 'a option) \<Rightarrow> 'a \<Rightarrow> nat list \<Rightarrow> nat list" where
  "has g key x ts = filter (\<lambda>t. key (vertex_of g t) = Some x) ts"

definition out :: "graph \<Rightarrow> string \<Rightarrow> nat list \<Rightarrow> nat list" where
  "out g l ts = concat (map (\<lambda>t. map (\<lambda>e. snd (snd e))
       (filter (\<lambda>e. fst e = t \<and> fst (snd e) = l) (edges g))) ts)"

definition in_step :: "graph \<Rightarrow> string \<Rightarrow> nat list \<Rightarrow> nat list" where
  "in_step g l ts = concat (map (\<lambda>t. map fst
       (filter (\<lambda>e. snd (snd e) = t \<and> fst (snd e) = l) (edges g))) ts)"

definition values_step :: "graph \<Rightarrow> (vertex \<Rightarrow> 'a option) \<Rightarrow> nat list \<Rightarrow> 'a list" where
  "values_step g key ts = concat (map (\<lambda>t. case key (vertex_of g t) of None \<Rightarrow> [] | Some x \<Rightarrow> [x]) ts)"

text \<open>\<open>dedup()\<close> lets the first traverser on each vertex through and drops the later ones.\<close>

fun dedup_from :: "'a list \<Rightarrow> 'a list \<Rightarrow> 'a list" where
  "dedup_from seen [] = []"
| "dedup_from seen (t # ts) =
     (if t \<in> set seen then dedup_from seen ts else t # dedup_from (t # seen) ts)"

definition dedup :: "'a list \<Rightarrow> 'a list" where
  "dedup ts = dedup_from [] ts"

text \<open>
  \<open>repeat(step).until(cond)\<close>: the step runs first, then each traverser for which the
  \<open>until\<close> traversal yields something leaves the loop, and the others go round again.
  There is no \<open>emit()\<close> and no \<open>times()\<close>: a traverser whose step yields nothing
  disappears, and nothing bounds the number of rounds. A loop that never empties does
  not return: the value \<open>None\<close>.
\<close>

partial_function (option) repeat_until ::
  "(nat list \<Rightarrow> nat list) \<Rightarrow> (nat list \<Rightarrow> nat list) \<Rightarrow> nat list \<Rightarrow> nat list option" where
  "repeat_until step cond ts =
     (if ts = [] then Some []
      else Option.bind (repeat_until step cond (filter (\<lambda>t. cond [t] = []) (step ts)))
             (\<lambda>rest. Some (filter (\<lambda>t. cond [t] \<noteq> []) (step ts) @ rest)))"

declare repeat_until.simps [code]

text \<open>
  \<open>union(a, b)\<close>: every incoming traverser goes through branch \<open>a\<close>, then through
  branch \<open>b\<close>. Branch \<open>b\<close> holds the loop, so it may not return.
\<close>

fun union_step :: "(nat list \<Rightarrow> nat list) \<Rightarrow> (nat list \<Rightarrow> nat list option) \<Rightarrow> nat list \<Rightarrow> nat list option" where
  "union_step a b [] = Some []"
| "union_step a b (t # ts) =
     (case b [t] of None \<Rightarrow> None
      | Some rb \<Rightarrow> (case union_step a b ts of None \<Rightarrow> None
                   | Some rs \<Rightarrow> Some (a [t] @ rb @ rs)))"


subsection \<open>Exceptions and outcomes\<close>

text \<open>An exception is its class and the text \<open>str(e)\<close> gives.\<close>

datatype exn_class = StopIteration | StoreUnavailable | PolicyEngineUnavailable
  | JWTError | DecodeError | KeyError | IndexError | UnboundLocalError | ValueError
  | TypeError

datatype exn = Exn exn_class string

text \<open>A call returns a value, raises, or does not return.\<close>

datatype 'a result = Returns 'a | Raises exn | Diverges

fun bind :: "'a result \<Rightarrow> ('a \<Rightarrow> 'b result) \<Rightarrow> 'b result" where
  "bind (Returns x) f = f x"
| "bind (Raises e) f = Raises e"
| "bind Diverges f = Diverges"

text \<open>The terminal steps: \<open>next()\<close> raises on an empty traversal, \<open>toList()\<close> does not.\<close>

fun next_step :: "'a list \<Rightarrow> 'a result" where
  "next_step [] = Raises (Exn StopIteration [])"
| "next_step (x # xs) = Returns x"

fun toList :: "'a list option \<Rightarrow> 'a list result" where
  "toList None = Diverges"
| "toList (Some xs) = Returns xs"

text \<open>
  The remote traversal source \<open>g\<close>: every terminal step submits its traversal to the
  store, which answers from the graph it holds or cannot be reached.
\<close>

datatype remote = Connected graph | Unavailable

subsection \<open>classtype.py\<close>

record directory =
  directory_id :: string
  directory_name :: string
  directory_vertex :: nat
  owner_id :: "string list"
  owner_name :: "string list"
  parents_id :: "string list"
  isPublic :: bool

record video =
  video_id :: string
  video_name :: string
  video_vertex :: nat
  owner_id :: "string list"
  owner_name :: "string list"
  parents_id :: "string list"
  isPublic :: bool

subsection \<open>database.py\<close>

text \<open>
  The two traversals that \<open>query_directory_info\<close> and \<open>query_video_info\<close> share, from
  the \<open>union\<close> step to \<open>dedup()\<close>:
  \<^verbatim>\<open>.union(__.in_('OWNER'), __.repeat(__.out('MEMBEROF')).until(__.has('name', 'petVideosDirectory')).in_('OWNER')).dedup()\<close>
  \<^verbatim>\<open>.union(__.out('MEMBEROF'), __.repeat(__.out('MEMBEROF')).until(__.has('name', 'petVideosDirectory'))).dedup()\<close>
\<close>

definition to_root :: "graph \<Rightarrow> nat list \<Rightarrow> nat list option" where
  "to_root g ts = repeat_until (out g ''MEMBEROF'') (has g v_name ''petVideosDirectory'') ts"

definition owner_traversal :: "graph \<Rightarrow> nat list \<Rightarrow> nat list option" where
  "owner_traversal g ts =
     map_option dedup
       (union_step (in_step g ''OWNER'')
                   (\<lambda>s. map_option (in_step g ''OWNER'') (to_root g s)) ts)"

definition parents_traversal :: "graph \<Rightarrow> nat list \<Rightarrow> nat list option" where
  "parents_traversal g ts =
     map_option dedup (union_step (out g ''MEMBEROF'') (to_root g) ts)"

definition query_directory_info :: "remote \<Rightarrow> string \<Rightarrow> directory option result" where
  "query_directory_info r name =
     (case r of
        Unavailable \<Rightarrow> Raises (Exn StoreUnavailable [])
      | Connected g \<Rightarrow>
          (let directoryExists = has g v_name name (hasLabel g ''directory'' (V g)) in
           if directoryExists = [] then Returns None
           else
             bind (next_step (values_step g v_directoryId
                     (has g v_name name (hasLabel g ''directory'' (V g))))) (\<lambda>directory_id.
             bind (next_step (has g v_name name
                     (has g v_directoryId directory_id (hasLabel g ''directory'' (V g))))) (\<lambda>directory_vertex.
             bind (toList (map_option (values_step g v_userId) (owner_traversal g
                     (has g v_directoryId directory_id (hasLabel g ''directory'' (V g)))))) (\<lambda>owner_id.
             bind (toList (map_option (values_step g v_name) (owner_traversal g
                     (has g v_directoryId directory_id (hasLabel g ''directory'' (V g)))))) (\<lambda>owner_name.
             bind (toList (map_option (values_step g v_directoryId) (parents_traversal g
                     (has g v_directoryId directory_id (hasLabel g ''directory'' (V g)))))) (\<lambda>parents_id.
             bind (next_step (values_step g v_isPublic (has g v_name name
                     (has g v_directoryId directory_id (hasLabel g ''directory'' (V g)))))) (\<lambda>isPublic.
             Returns (Some \<lparr>directory_id = directory_id, directory_name = name,
                       directory_vertex = directory_vertex, directory.owner_id = owner_id,
                       directory.owner_name = owner_name, directory.parents_id = parents_id,
                       directory.isPublic = isPublic\<rparr>)))))))))"

definition query_video_info :: "remote \<Rightarrow> string \<Rightarrow> video option result" where
  "query_video_info r name =
     (case r of
        Unavailable \<Rightarrow> Raises (Exn StoreUnavailable [])
      | Connected g \<Rightarrow>
          (let videoExists = has g v_name name (hasLabel g ''video'' (V g)) in
           if videoExists = [] then Returns None
           else
             bind (next_step (values_step g v_videoId
                     (has g v_name name (hasLabel g ''video'' (V g))))) (\<lambda>video_id.
             bind (next_step (has g v_name name
                     (has g v_videoId video_id (hasLabel g ''video'' (V g))))) (\<lambda>video_vertex.
             bind (toList (map_option (values_step g v_userId) (owner_traversal g
                     (has g v_videoId video_id (hasLabel g ''video'' (V g)))))) (\<lambda>owner_id.
             bind (toList (map_option (values_step g v_name) (owner_traversal g
                     (has g v_videoId video_id (hasLabel g ''video'' (V g)))))) (\<lambda>owner_name.
             bind (toList (map_option (values_step g v_directoryId) (parents_traversal g
                     (has g v_videoId video_id (hasLabel g ''video'' (V g)))))) (\<lambda>parents_id.
             bind (next_step (values_step g v_isPublic (has g v_name name
                     (has g v_videoId video_id (hasLabel g ''video'' (V g)))))) (\<lambda>isPublic.
             Returns (Some \<lparr>video_id = video_id, video_name = name,
                       video_vertex = video_vertex, video.owner_id = owner_id,
                       video.owner_name = owner_name, video.parents_id = parents_id,
                       video.isPublic = isPublic\<rparr>)))))))))"


section \<open>Building the decision request (permissions.py)\<close>

text \<open>
  The Python values that \<open>attribute_value\<close> tells apart. A set is the list of its
  elements in iteration order; a dictionary is the list of its items in insertion
  order; \<open>PFloat m e\<close> is the float of mantissa \<open>m\<close> and exponent \<open>e\<close>;
  \<open>PObject\<close> is a value of any other class, with the name of the class.
\<close>

datatype pyval = PNone | PStr string | PBool bool | PInt int | PFloat int int
  | PList "pyval list" | PSet "pyval list" | PDict "(string \<times> pyval) list"
  | PObject string

fun type_name :: "pyval \<Rightarrow> string" where
  "type_name PNone = ''NoneType''"
| "type_name (PStr s) = ''str''"
| "type_name (PBool b) = ''bool''"
| "type_name (PInt i) = ''int''"
| "type_name (PFloat m e) = ''float''"
| "type_name (PList vs) = ''list''"
| "type_name (PSet vs) = ''set''"
| "type_name (PDict d) = ''dict''"
| "type_name (PObject c) = c"

text \<open>A list comprehension stops at the first element whose conversion raises.\<close>

fun collect :: "(exn + 'a) list \<Rightarrow> exn + 'a list" where
  "collect [] = Inr []"
| "collect (Inl e # rs) = Inl e"
| "collect (Inr x # rs) = (case collect rs of Inl e \<Rightarrow> Inl e | Inr xs \<Rightarrow> Inr (x # xs))"

text \<open>The ids are strings, on which \<open>str\<close> is the identity.\<close>

definition entity :: "string \<Rightarrow> string \<Rightarrow> pyval" where
  "entity entity_type entity_id =
     PDict [(''entityType'', PStr (''PetVideosApp::'' @ entity_type)), (''entityId'', PStr entity_id)]"

definition entity_set :: "string \<Rightarrow> string list \<Rightarrow> pyval list" where
  "entity_set entity_type entity_ids =
     map (\<lambda>entity_id. PDict [(''entityType'', PStr (''PetVideosApp::'' @ entity_type)),
                              (''entityId'', PStr entity_id)]) entity_ids"

fun attribute_value :: "pyval \<Rightarrow> exn + pyval" where
  "attribute_value (PStr s) = Inr (PDict [(''string'', PStr s)])"
| "attribute_value (PBool b) = Inr (PDict [(''boolean'', PBool b)])"
| "attribute_value (PSet vs) =
     (case collect (map attribute_value vs) of
        Inl e \<Rightarrow> Inl e | Inr rs \<Rightarrow> Inr (PDict [(''set'', PList rs)]))"
| "attribute_value (PList vs) =
     (case collect (map attribute_value vs) of
        Inl e \<Rightarrow> Inl e | Inr rs \<Rightarrow> Inr (PDict [(''set'', PList rs)]))"
| "attribute_value (PDict d) = Inr (PDict [(''entityIdentifier'', PDict d)])"
| "attribute_value v =
     Inl (Exn ValueError (''Unknown attribute value type: <class '' @ [CHR 0x27] @ type_name v @ [CHR 0x27] @ ''>''))"

text \<open>
  The keyword arguments that \<open>permissions_check_token_directory\<close> and
  \<open>permissions_check_token_video\<close> build for \<open>is_authorized_with_token\<close> (lines 54 to 85
  and 97 to 128), as the dictionary \<open>args\<close>. A dataclass instance is always true, so
  \<open>if video_dir:\<close> asks whether the argument is \<open>None\<close>.
\<close>

definition directory_args :: "string \<Rightarrow> string \<Rightarrow> string \<Rightarrow> directory option \<Rightarrow> exn + (string \<times> pyval) list" where
  "directory_args policy_store_id token action video_dir =
     (let action_entity = PDict [(''actionType'', PStr ''PetVideosApp::Action''), (''actionId'', PStr action)];
          resource_entity = entity ''Application'' ''PetVideosApp'';
          args = [(''policyStoreId'', PStr policy_store_id), (''identityToken'', PStr token),
                  (''action'', action_entity), (''resource'', resource_entity)]
      in case video_dir of
           None \<Rightarrow> Inr (AList.update ''resource'' resource_entity args)
         | Some d \<Rightarrow>
             (let list_entity = entity ''Directory'' (directory_id d);
                  resource_entity = list_entity;
                  parents_entity = entity_set ''Directory'' (directory.parents_id d)
              in case attribute_value (PList (entity_set ''User'' (directory.owner_id d))) of
                   Inl e \<Rightarrow> Inl e
                 | Inr owner \<Rightarrow>
                     (case attribute_value (PBool (directory.isPublic d)) of
                        Inl e \<Rightarrow> Inl e
                      | Inr public \<Rightarrow>
                          Inr (AList.update ''resource'' resource_entity
                                (AList.update ''entities''
                                   (PDict [(''entityList'', PList [PDict
                                      [(''identifier'', list_entity),
                                       (''attributes'', PDict [(''owner'', owner), (''isPublic'', public)]),
                                       (''parents'', PList parents_entity)]])])
                                   args)))))"

definition video_args :: "string \<Rightarrow> string \<Rightarrow> string \<Rightarrow> video option \<Rightarrow> exn + (string \<times> pyval) list" where
  "video_args policy_store_id token action video =
     (let action_entity = PDict [(''actionType'', PStr ''PetVideosApp::Action''), (''actionId'', PStr action)];
          resource_entity = entity ''Application'' ''PetVideosApp'';
          args = [(''policyStoreId'', PStr policy_store_id), (''identityToken'', PStr token),
                  (''action'', action_entity), (''resource'', resource_entity)]
      in case video of
           None \<Rightarrow> Inr (AList.update ''resource'' resource_entity args)
         | Some v \<Rightarrow>
             (let list_entity = entity ''Video'' (video_id v);
                  resource_entity = list_entity;
                  parents_entity = entity_set ''Directory'' (video.parents_id v)
              in case attribute_value (PList (entity_set ''User'' (video.owner_id v))) of
                   Inl e \<Rightarrow> Inl e
                 | Inr owner \<Rightarrow>
                     (case attribute_value (PBool (video.isPublic v)) of
                        Inl e \<Rightarrow> Inl e
                      | Inr public \<Rightarrow>
                          Inr (AList.update ''resource'' resource_entity
                                (AList.update ''entities''
                                   (PDict [(''entityList'', PList [PDict
                                      [(''identifier'', list_entity),
                                       (''attributes'', PDict [(''owner'', owner), (''isPublic'', public)]),
                                       (''parents'', PList parents_entity)]])])
                                   args)))))"


section \<open>The request handler (main.py)\<close>

text \<open>
  What the handler reads from outside: the environment variable, the two library
  decoders, the policy-decision engine and the graph store. \<open>json_loads\<close> gives the
  value that the text of the body denotes: an object as \<open>PDict\<close>, an array as
  \<open>PList\<close>, and so on.
\<close>

record avp_response =
  decision :: string
  determiningPolicies :: "string list"

record world =
  POLICY_STORE_ID :: "string option"
  jwt_decode :: "string \<Rightarrow> exn + (string \<rightharpoonup> string)"
  json_loads :: "string \<Rightarrow> exn + pyval"
  is_authorized_with_token :: "(string \<times> pyval) list \<Rightarrow> exn + avp_response"
  store :: remote

record event =
  resource :: string
  httpMethod :: string
  headers :: "string \<rightharpoonup> string"
  body :: "string option"
  queryStringParameters :: "(string \<rightharpoonup> string) option"

text \<open>
  The response: \<open>body\<close> holds the text of the single member \<open>message\<close> of the JSON
  object that \<open>format_response\<close> serialises.
\<close>

record response =
  statusCode :: nat
  headers :: "(string \<times> string) list"
  body :: string

text \<open>What a call leaves behind outside the process: the queries and the decision requests.\<close>

datatype effect = QueryDirectory pyval | QueryVideo pyval
  | IsAuthorizedWithToken "(string \<times> pyval) list"

text \<open>What the two permission checks return: \<open>decision\<close> and \<open>determining_policies\<close>.\<close>

record check =
  decision :: string
  determining_policies :: "string list"

definition permissions_check_token_directory ::
  "world \<Rightarrow> string \<Rightarrow> string \<Rightarrow> string \<Rightarrow> directory option \<Rightarrow> effect list \<times> check result" where
  "permissions_check_token_directory w policy_store_id token action video_dir =
     (case directory_args policy_store_id token action video_dir of
        Inl e \<Rightarrow> ([], Raises e)
      | Inr args \<Rightarrow>
          (case is_authorized_with_token w args of
             Inl e \<Rightarrow> ([IsAuthorizedWithToken args], Raises e)
           | Inr resp \<Rightarrow> ([IsAuthorizedWithToken args],
               Returns \<lparr>check.decision = avp_response.decision resp,
                         determining_policies = determiningPolicies resp\<rparr>)))"

definition permissions_check_token_video ::
  "world \<Rightarrow> string \<Rightarrow> string \<Rightarrow> string \<Rightarrow> video option \<Rightarrow> effect list \<times> check result" where
  "permissions_check_token_video w policy_store_id token action video =
     (case video_args policy_store_id token action video of
        Inl e \<Rightarrow> ([], Raises e)
      | Inr args \<Rightarrow>
          (case is_authorized_with_token w args of
             Inl e \<Rightarrow> ([IsAuthorizedWithToken args], Raises e)
           | Inr resp \<Rightarrow> ([IsAuthorizedWithToken args],
               Returns \<lparr>check.decision = avp_response.decision resp,
                         determining_policies = determiningPolicies resp\<rparr>)))"

definition ACTIONS :: "string \<times> string \<rightharpoonup> string" where
  "ACTIONS = [(''/directory/get'', ''GET'') \<mapsto> ''ViewDirectory'',
              (''/video/get'', ''GET'') \<mapsto> ''ViewVideo'']"

definition format_response :: "string \<Rightarrow> nat \<Rightarrow> response" where
  "format_response message status_code =
     \<lparr>statusCode = status_code,
      response.headers = [(''Content-Type'', ''application/json''), (''Access-Control-Allow-Origin'', ''*'')],
      response.body = message\<rparr>"

text \<open>\<open>s.split(c)\<close> for a separator of one character.\<close>

fun split_on :: "char \<Rightarrow> string \<Rightarrow> string list" where
  "split_on c [] = [[]]"
| "split_on c (x # xs) =
     (if x = c then [] # split_on c xs
      else (case split_on c xs of [] \<Rightarrow> [[x]] | w # ws \<Rightarrow> (x # w) # ws))"

text \<open>A string that is there and not empty is true; \<open>None\<close> and the empty string are false.\<close>

fun truthy :: "string option \<Rightarrow> string option" where
  "truthy None = None"
| "truthy (Some s) = (if s = [] then None else Some s)"

text \<open>Whether a value counts as true in a condition.\<close>

fun py_truthy :: "pyval \<Rightarrow> bool" where
  "py_truthy PNone = False"
| "py_truthy (PStr s) = (s \<noteq> [])"
| "py_truthy (PBool b) = b"
| "py_truthy (PInt i) = (i \<noteq> 0)"
| "py_truthy (PFloat m e) = (m \<noteq> 0)"
| "py_truthy (PList vs) = (vs \<noteq> [])"
| "py_truthy (PSet vs) = (vs \<noteq> [])"
| "py_truthy (PDict d) = (d \<noteq> [])"
| "py_truthy (PObject c) = True"

text \<open>
  \<open>key in body\<close> and \<open>body[key]\<close> for a string \<open>key\<close>, and the expression
  \<open>body[key] if key in body else None\<close> of lines 74 and 75. A dictionary is asked for
  the key, a list for an element equal to it, a string for it as a substring; indexing
  a list or a string by a string raises.
\<close>

fun py_contains :: "string \<Rightarrow> pyval \<Rightarrow> exn + bool" where
  "py_contains k (PDict d) = Inr (map_of d k \<noteq> None)"
| "py_contains k (PList vs) = Inr (PStr k \<in> set vs)"
| "py_contains k (PStr s) = Inr (sublist k s)"
| "py_contains k v =
     Inl (Exn TypeError (''argument of type '' @ [CHR 0x27] @ type_name v @ [CHR 0x27] @ '' is not iterable''))"

fun py_getitem :: "pyval \<Rightarrow> string \<Rightarrow> exn + pyval" where
  "py_getitem (PDict d) k =
     (case map_of d k of
        None \<Rightarrow> Inl (Exn KeyError ([CHR 0x27] @ k @ [CHR 0x27]))
      | Some v \<Rightarrow> Inr v)"
| "py_getitem (PList vs) k = Inl (Exn TypeError ''list indices must be integers or slices, not str'')"
| "py_getitem (PStr s) k =
     Inl (Exn TypeError (''string indices must be integers, not '' @ [CHR 0x27] @ ''str'' @ [CHR 0x27]))"
| "py_getitem v k =
     Inl (Exn TypeError ([CHR 0x27] @ type_name v @ [CHR 0x27] @ '' object is not subscriptable''))"

definition member_or_None :: "pyval \<Rightarrow> string \<Rightarrow> exn + pyval" where
  "member_or_None members key =
     (case py_contains key members of
        Inl e \<Rightarrow> Inl e
      | Inr present \<Rightarrow> if present then py_getitem members key else Inr PNone)"

text \<open>
  Lines 77 and 78, for a query string: \<open>str(q[key]) if key in q else None\<close>. The
  parameters of a query string are strings.
\<close>

definition parameter_or_None :: "(string \<rightharpoonup> string) \<Rightarrow> string \<Rightarrow> pyval" where
  "parameter_or_None q key = (case q key of None \<Rightarrow> PNone | Some s \<Rightarrow> PStr s)"

text \<open>
  The handler hands the name to the query as it read it. The names in the graph are
  strings, so a value that is not a string is the name of no vertex: the first
  traversal of the query comes back empty and the query returns \<open>None\<close>.
\<close>

definition lookup_directory :: "remote \<Rightarrow> pyval \<Rightarrow> directory option result" where
  "lookup_directory r name =
     (case name of
        PStr s \<Rightarrow> query_directory_info r s
      | _ \<Rightarrow> (case r of Unavailable \<Rightarrow> Raises (Exn StoreUnavailable [])
                         | Connected g \<Rightarrow> Returns None))"

definition lookup_video :: "remote \<Rightarrow> pyval \<Rightarrow> video option result" where
  "lookup_video r name =
     (case name of
        PStr s \<Rightarrow> query_video_info r s
      | _ \<Rightarrow> (case r of Unavailable \<Rightarrow> Raises (Exn StoreUnavailable [])
                         | Connected g \<Rightarrow> Returns None))"

text \<open>
  Lines 39 to 78: the configuration check, the action, the access token and the two
  names. The result is the response of an early return (\<open>Inl\<close>) or the policy store id,
  the action and the values of \<open>directory_name\<close> and \<open>video_name\<close> (\<open>Inr\<close>). The
  variable \<open>principal\<close> is computed and not read again.
\<close>

definition resolve_request ::
  "world \<Rightarrow> event \<Rightarrow> (response + string \<times> string \<times> pyval \<times> pyval) result" where
  "resolve_request w ev =
     (case truthy (POLICY_STORE_ID w) of
        None \<Rightarrow> Returns (Inl (format_response
                  ''API Lambda environment variables not set. Please set POLICY_STORE_ID.'' 500))
      | Some policy_store_id \<Rightarrow>
     (case ACTIONS (resource ev, httpMethod ev) of
        None \<Rightarrow> Returns (Inl (format_response ''Unknown API call'' 404))
      | Some action \<Rightarrow>
     (case event.headers ev ''Authorization'' of
        None \<Rightarrow> Raises (Exn KeyError ([CHR 0x27] @ ''Authorization'' @ [CHR 0x27]))
      | Some authorization \<Rightarrow>
     (case split_on CHR '' '' authorization of
        _ # access_token # _ \<Rightarrow>
          (case jwt_decode w access_token of
             Inl (Exn c m) \<Rightarrow>
               if c = JWTError then Returns (Inl (format_response ''Access denied -- token broken'' 401))
               else Raises (Exn c m)
           | Inr jwt_claims \<Rightarrow>
          (case jwt_claims ''iss'' of
             None \<Rightarrow> Raises (Exn KeyError ([CHR 0x27] @ ''iss'' @ [CHR 0x27]))
           | Some iss \<Rightarrow>
          (case jwt_claims ''sub'' of
             None \<Rightarrow> Raises (Exn KeyError ([CHR 0x27] @ ''sub'' @ [CHR 0x27]))
           | Some sub \<Rightarrow>
          (let principal = last (split_on CHR ''/'' iss) @ ''|'' @ sub in
           case truthy (event.body ev) of
             Some b \<Rightarrow>
               (case json_loads w b of
                  Inl e \<Rightarrow> Raises e
                | Inr members \<Rightarrow>
                    (case member_or_None members ''directoryName'' of
                       Inl e \<Rightarrow> Raises e
                     | Inr dir_name \<Rightarrow>
                         (case member_or_None members ''videoName'' of
                            Inl e \<Rightarrow> Raises e
                          | Inr vid_name \<Rightarrow>
                              Returns (Inr (policy_store_id, action, dir_name, vid_name)))))
           | None \<Rightarrow>
               (case queryStringParameters ev of
                  Some q \<Rightarrow>
                    Returns (Inr (policy_store_id, action,
                      parameter_or_None q ''directoryName'', parameter_or_None q ''videoName''))
                | None \<Rightarrow> Returns (Inr (policy_store_id, action, PNone, PNone)))))))
      | _ \<Rightarrow> Raises (Exn IndexError ''list index out of range'')))))"

text \<open>
  Lines 80 to 86, the existence check: \<open>Some\<close> response is the early return, \<open>None\<close>
  goes on.
\<close>

definition check_exists :: "world \<Rightarrow> pyval \<Rightarrow> pyval \<Rightarrow> effect list \<times> response option result" where
  "check_exists w dir_name vid_name =
     (if py_truthy dir_name then
        ([QueryDirectory dir_name],
         bind (lookup_directory (store w) dir_name) (\<lambda>d.
           if d = None
           then Returns (Some (format_response ''Invalid input -- directory doesn't exist'' 400))
           else Returns None))
      else if py_truthy vid_name then
        ([QueryVideo vid_name],
         bind (lookup_video (store w) vid_name) (\<lambda>v.
           if v = None
           then Returns (Some (format_response ''Invalid input -- video doesn't exist'' 400))
           else Returns None))
      else ([], Returns None))"

text \<open>
  Lines 92 to 95, the body of the second \<open>try\<close>: it binds \<open>video_dir\<close> or \<open>video\<close>
  or neither. An unbound variable is \<open>None\<close>, a bound one \<open>Some\<close> of its value.
\<close>

definition resolve ::
  "world \<Rightarrow> pyval \<Rightarrow> pyval \<Rightarrow>
     effect list \<times> (directory option option \<times> video option option) result" where
  "resolve w dir_name vid_name =
     (if py_truthy dir_name then
        ([QueryDirectory dir_name],
         bind (lookup_directory (store w) dir_name) (\<lambda>d. Returns (Some d, None)))
      else if py_truthy vid_name then
        ([QueryVideo vid_name],
         bind (lookup_video (store w) vid_name) (\<lambda>v. Returns (None, Some v)))
      else ([], Returns (None, None)))"

text \<open>
  Lines 102 to 109 and 113 to 120: what the handler makes of the outcome of a
  permission check. \<open>except Exception\<close> catches every exception raised inside the
  \<open>try\<close>, also the one of reading the first of no determining policies.
\<close>

definition respond :: "effect list \<times> check result \<Rightarrow> effect list \<times> response option result" where
  "respond c =
     (case c of
        (tr, Returns response) \<Rightarrow>
          if check.decision response = ''ALLOW'' then
            (case determining_policies response of
               [] \<Rightarrow> (tr, Returns (Some (format_response
                        ''Access denied -- permissions check failed - list index out of range'' 401)))
             | policyId # _ \<Rightarrow> (tr, Returns (Some (format_response
                        (''Access allowed -- determining policy id is '' @ policyId) 200))))
          else (tr, Returns (Some (format_response ''Access denied -- permissions check failed'' 401)))
      | (tr, Raises (Exn c m)) \<Rightarrow>
          (tr, Returns (Some (format_response (''Access denied -- permissions check failed - '' @ m) 401)))
      | (tr, Diverges) \<Rightarrow> (tr, Diverges))"

text \<open>Lines 100 to 120. Reading an unbound local variable raises inside the \<open>try\<close>.\<close>

definition handler_decision ::
  "world \<Rightarrow> string \<Rightarrow> string \<Rightarrow> string \<Rightarrow> directory option option \<Rightarrow> video option option
     \<Rightarrow> effect list \<times> response option result" where
  "handler_decision w policy_store_id id_token action video_dir video =
     (if action = ''ViewDirectory'' then
        (case video_dir of
           None \<Rightarrow> respond ([], Raises (Exn UnboundLocalError
             ''cannot access local variable 'video_dir' where it is not associated with a value''))
         | Some vd \<Rightarrow> respond (permissions_check_token_directory w policy_store_id id_token action vd))
      else if action = ''ViewVideo'' then
        (case video of
           None \<Rightarrow> respond ([], Raises (Exn UnboundLocalError
             ''cannot access local variable 'video' where it is not associated with a value''))
         | Some v \<Rightarrow> respond (permissions_check_token_video w policy_store_id id_token action v))
      else ([], Returns None))"

text \<open>Lines 80 to 120, and the handler as a whole.\<close>

definition handler_check ::
  "world \<Rightarrow> event \<Rightarrow> string \<Rightarrow> string \<Rightarrow> pyval \<Rightarrow> pyval
     \<Rightarrow> effect list \<times> response option result" where
  "handler_check w ev policy_store_id action dir_name vid_name =
     (case check_exists w dir_name vid_name of
        (tr, Raises e) \<Rightarrow> (tr, Raises e)
      | (tr, Diverges) \<Rightarrow> (tr, Diverges)
      | (tr, Returns (Some early)) \<Rightarrow> (tr, Returns (Some early))
      | (tr, Returns None) \<Rightarrow>
          (case truthy (event.headers ev ''id-token'') of
             None \<Rightarrow> (tr, Returns (Some (format_response
                        ''Access denied -- no identity token provided'' 401)))
           | Some id_token \<Rightarrow>
               (case resolve w dir_name vid_name of
                  (tr2, Raises (Exn c m)) \<Rightarrow>
                    if c = JWTError
                    then (tr @ tr2, Returns (Some (format_response ''Access denied -- token broken'' 401)))
                    else (tr @ tr2, Raises (Exn c m))
                | (tr2, Diverges) \<Rightarrow> (tr @ tr2, Diverges)
                | (tr2, Returns (video_dir, video)) \<Rightarrow>
                    (case handler_decision w policy_store_id id_token action video_dir video of
                       (tr3, r) \<Rightarrow> (tr @ tr2 @ tr3, r)))))"

definition handler :: "world \<Rightarrow> event \<Rightarrow> effect list \<times> response option result" where
  "handler w ev =
     (case resolve_request w ev of
        Raises e \<Rightarrow> ([], Raises e)
      | Diverges \<Rightarrow> ([], Diverges)
      | Returns (Inl early) \<Rightarrow> ([], Returns (Some early))
      | Returns (Inr (policy_store_id, action, dir_name, vid_name)) \<Rightarrow>
          handler_check w ev policy_store_id action dir_name vid_name)"


section \<open>The resolver as the specification words it\<close>

text \<open>
  Section 4.2 of the specification, for comparison with database.py: the walk from a
  resource along its single \<open>MEMBEROF\<close> edge, up to the root directory or the end of
  the edges, within \<open>max_depth\<close> hops; the chain of ancestors, and the owners of the
  resource and of every ancestor, without repetition.
\<close>

datatype spec_error = MalformedHierarchy | CycleDetected

fun spec_ancestor_chain :: "graph \<Rightarrow> nat \<Rightarrow> nat \<Rightarrow> spec_error + nat list" where
  "spec_ancestor_chain g 0 cursor =
     (if out g ''MEMBEROF'' [cursor] = [] \<or> v_name (vertex_of g cursor) = Some ''petVideosDirectory''
      then Inr [] else Inl CycleDetected)"
| "spec_ancestor_chain g (Suc max_depth) cursor =
     (if v_name (vertex_of g cursor) = Some ''petVideosDirectory'' then Inr []
      else (case out g ''MEMBEROF'' [cursor] of
              [] \<Rightarrow> Inr []
            | [parent] \<Rightarrow>
                (case spec_ancestor_chain g max_depth parent of
                   Inl e \<Rightarrow> Inl e
                 | Inr chain \<Rightarrow> Inr (parent # chain))
            | _ \<Rightarrow> Inl MalformedHierarchy))"

definition spec_parents_id :: "graph \<Rightarrow> nat \<Rightarrow> nat \<Rightarrow> spec_error + string list" where
  "spec_parents_id g max_depth r =
     (case spec_ancestor_chain g max_depth r of
        Inl e \<Rightarrow> Inl e
      | Inr chain \<Rightarrow> Inr (values_step g v_directoryId chain))"

definition spec_owner_id :: "graph \<Rightarrow> nat \<Rightarrow> nat \<Rightarrow> spec_error + string list" where
  "spec_owner_id g max_depth r =
     (case spec_ancestor_chain g max_depth r of
        Inl e \<Rightarrow> Inl e
      | Inr chain \<Rightarrow> Inr (values_step g v_userId (dedup (in_step g ''OWNER'' (r # chain)))))"

section \<open>Well-formed graphs\<close>

text \<open>
  Vertex \<open>v\<close> is the resource of label \<open>l\<close> that the name \<open>n\<close> and the identifier \<open>i\<close>
  (under the key \<open>key\<close>) each single out, with the flag \<open>p\<close>.
\<close>

definition is_resource ::
  "graph \<Rightarrow> string \<Rightarrow> (vertex \<Rightarrow> string option) \<Rightarrow> string \<Rightarrow> nat \<Rightarrow> string \<Rightarrow> bool \<Rightarrow> bool" where
  "is_resource g l key n v i p \<longleftrightarrow>
     has g v_name n (hasLabel g l (V g)) = [v] \<and> key (vertex_of g v) = Some i \<and>
     has g key i (hasLabel g l (V g)) = [v] \<and> v_isPublic (vertex_of g v) = Some p"

text \<open>
  Every \<open>MEMBEROF\<close> edge that does not lead into a directory named
  \<open>petVideosDirectory\<close> goes down in \<open>rank\<close>: no cycle of such edges avoids the root.
\<close>

definition walk_ends :: "graph \<Rightarrow> (nat \<Rightarrow> nat) \<Rightarrow> bool" where
  "walk_ends g rank \<longleftrightarrow>
     (\<forall>e\<in>set (edges g). fst (snd e) = ''MEMBEROF'' \<and>
          v_name (vertex_of g (snd (snd e))) \<noteq> Some ''petVideosDirectory''
        \<longrightarrow> rank (snd (snd e)) < rank (fst e))"

text \<open>No vertex has more than one outgoing \<open>MEMBEROF\<close> edge.\<close>

definition forest :: "graph \<Rightarrow> bool" where
  "forest g \<longleftrightarrow> (\<forall>e\<in>set (edges g). length (out g ''MEMBEROF'' [fst e]) \<le> 1)"

text \<open>
  \<open>reaches_root g t r\<close>: \<open>r\<close> is the first vertex named \<open>petVideosDirectory\<close> on a path
  of one or more \<open>MEMBEROF\<close> edges from \<open>t\<close>.
\<close>

inductive reaches_root :: "graph \<Rightarrow> nat \<Rightarrow> nat \<Rightarrow> bool" for g :: graph where
  arrive: "(t, ''MEMBEROF'', r) \<in> set (edges g) \<Longrightarrow>
     v_name (vertex_of g r) = Some ''petVideosDirectory'' \<Longrightarrow> reaches_root g t r"
| climb: "(t, ''MEMBEROF'', x) \<in> set (edges g) \<Longrightarrow>
     v_name (vertex_of g x) \<noteq> Some ''petVideosDirectory'' \<Longrightarrow>
     reaches_root g x r \<Longrightarrow> reaches_root g t r"

section \<open>Sample data\<close>

text \<open>Vertices as the bootstrap function adds them.\<close>

definition mk_user :: "string \<Rightarrow> string \<Rightarrow> vertex" where
  "mk_user n i = \<lparr>v_label = ''user'', v_name = Some n, v_userId = Some i,
     v_directoryId = None, v_videoId = None, v_isPublic = None\<rparr>"

definition mk_directory :: "string \<Rightarrow> string \<Rightarrow> bool \<Rightarrow> vertex" where
  "mk_directory n i p = \<lparr>v_label = ''directory'', v_name = Some n, v_userId = None,
     v_directoryId = Some i, v_videoId = None, v_isPublic = Some p\<rparr>"

definition mk_video :: "string \<Rightarrow> string \<Rightarrow> bool \<Rightarrow> vertex" where
  "mk_video n i p = \<lparr>v_label = ''video'', v_name = Some n, v_userId = None,
     v_directoryId = None, v_videoId = Some i, v_isPublic = Some p\<rparr>"

text \<open>
  A video three levels below the root: clip.mp4 in sub, sub in mid, mid in
  petVideosDirectory; alice owns mid.
\<close>

definition deep_graph :: graph where
  "deep_graph = \<lparr>vertices = [0, 1, 2, 3, 4],
     vertex_of = (\<lambda>i. if i = 0 then mk_user ''alice'' ''u-alice''
                     else if i = 1 then mk_directory ''petVideosDirectory'' ''d-root'' False
                     else if i = 2 then mk_directory ''mid'' ''d-mid'' False
                     else if i = 3 then mk_directory ''sub'' ''d-sub'' False
                     else mk_video ''clip.mp4'' ''v-clip'' False),
     edges = [(0, ''OWNER'', 2), (4, ''MEMBEROF'', 3), (3, ''MEMBEROF'', 2), (2, ''MEMBEROF'', 1)]\<rparr>"

text \<open>Two directories, each a member of the other, and no root.\<close>

definition cyclic_graph :: graph where
  "cyclic_graph = \<lparr>vertices = [0, 1],
     vertex_of = (\<lambda>i. if i = 0 then mk_directory ''ring-a'' ''d-a'' False
                     else mk_directory ''ring-b'' ''d-b'' False),
     edges = [(0, ''MEMBEROF'', 1), (1, ''MEMBEROF'', 0)]\<rparr>"

text \<open>A video that is a member of two directories, both members of the root; bob owns the video.\<close>

definition branching_graph :: graph where
  "branching_graph = \<lparr>vertices = [0, 1, 2, 3, 4],
     vertex_of = (\<lambda>i. if i = 0 then mk_user ''bob'' ''u-bob''
                     else if i = 1 then mk_directory ''petVideosDirectory'' ''d-root'' False
                     else if i = 2 then mk_directory ''left'' ''d-left'' False
                     else if i = 3 then mk_directory ''right'' ''d-right'' False
                     else mk_video ''clip.mp4'' ''v-clip'' False),
     edges = [(0, ''OWNER'', 4), (4, ''MEMBEROF'', 2), (4, ''MEMBEROF'', 3),
              (2, ''MEMBEROF'', 1), (3, ''MEMBEROF'', 1)]\<rparr>"

text \<open>
  A decoder that knows two bodies, a world around a store and a decision engine, and
  two requests with a bearer token and an identity token: a GET request with a query
  string, and a request with a body and a query string.
\<close>

definition sample_json :: "string \<Rightarrow> exn + pyval" where
  \<open>sample_json b =
     (if b = ''{"directoryName": "sub", "videoName": "clip.mp4"}''
      then Inr (PDict [(''directoryName'', PStr ''sub''), (''videoName'', PStr ''clip.mp4'')])
      else if b = ''{"videoName": "clip.mp4"}''
      then Inr (PDict [(''videoName'', PStr ''clip.mp4'')])
      else Inl (Exn ValueError ''Expecting value''))\<close>

definition sample_world :: "remote \<Rightarrow> ((string \<times> pyval) list \<Rightarrow> exn + avp_response) \<Rightarrow> world" where
  "sample_world r engine =
     \<lparr>POLICY_STORE_ID = Some ''ps-1'',
      jwt_decode = (\<lambda>t. Inr [''iss'' \<mapsto> ''https://idp.example/pool-1'', ''sub'' \<mapsto> ''u-alice'']),
      json_loads = sample_json,
      is_authorized_with_token = engine,
      store = r\<rparr>"

definition sample_event :: "string \<Rightarrow> (string \<rightharpoonup> string) \<Rightarrow> event" where
  "sample_event route q =
     \<lparr>resource = route, httpMethod = ''GET'',
      event.headers = [''Authorization'' \<mapsto> ''Bearer access'', ''id-token'' \<mapsto> ''identity''],
      event.body = None, queryStringParameters = Some q\<rparr>"


definition engine_deny :: "(string \<times> pyval) list \<Rightarrow> exn + avp_response" where
  "engine_deny args = Inr \<lparr>avp_response.decision = ''DENY'', determiningPolicies = []\<rparr>"

definition engine_down :: "(string \<times> pyval) list \<Rightarrow> exn + avp_response" where
  "engine_down args = Inl (Exn PolicyEngineUnavailable ''service unavailable'')"


section \<open>A handler that deals with the directory only\<close>


section \<open>Values that \<open>attribute_value\<close> converts\<close>

text \<open>
  A string, a boolean and a dictionary convert; a list or a set converts when each of
  its elements does; nothing else converts.
\<close>

fun convertible :: "pyval \<Rightarrow> bool" where
  "convertible (PStr s) = True"
| "convertible (PBool b) = True"
| "convertible (PDict d) = True"
| "convertible (PList vs) = list_all convertible vs"
| "convertible (PSet vs) = list_all convertible vs"
| "convertible v = False"


section \<open>The decision request\<close>

lemma collect_map_Inr: "collect (map Inr xs) = Inr xs"
  by (induction xs) auto

lemma collect_Inr_D: "collect rs = Inr xs \<Longrightarrow> rs = map Inr xs"
  by (induction rs arbitrary: xs rule: collect.induct) (auto split: sum.splits)

lemma collect_Inr: "collect rs = Inr xs \<longleftrightarrow> rs = map Inr xs"
  using collect_map_Inr collect_Inr_D by metis

lemma collect_returns:
  "(\<exists>xs. collect (map f vs) = Inr xs) \<longleftrightarrow> (\<forall>v\<in>set vs. \<exists>r. f v = Inr r)"
proof (induction vs)
  case Nil
  show ?case by simp
next
  case (Cons a vs)
  show ?case
  proof (cases "f a")
    case (Inl e)
    then show ?thesis by auto
  next
    case (Inr x)
    then show ?thesis using Cons by (auto split: sum.splits)
  qed
qed

lemma collect_Inl: "collect rs = Inl e \<Longrightarrow> Inl e \<in> set rs"
  by (induction rs rule: collect.induct) (auto split: sum.splits)

lemma collect_entity_set:
  "collect (map attribute_value (entity_set t ids)) =
     Inr (map (\<lambda>i. PDict [(''entityIdentifier'',
            PDict [(''entityType'', PStr (''PetVideosApp::'' @ t)), (''entityId'', PStr i)])]) ids)"
  by (simp add: collect_Inr entity_set_def comp_def)

lemma attribute_value_raises_ValueError:
  "attribute_value v = Inl e \<Longrightarrow> \<exists>m. e = Exn ValueError m"
proof (induction v arbitrary: e rule: attribute_value.induct)
  case (3 vs)
  then show ?case by (auto split: sum.splits dest!: collect_Inl)
next
  case (4 vs)
  then show ?case by (auto split: sum.splits dest!: collect_Inl)
qed auto

lemma attribute_value_convertible:
  "(\<exists>r. attribute_value v = Inr r) \<longleftrightarrow> convertible v"
proof (induction v rule: attribute_value.induct)
  case (3 vs)
  have "(\<exists>r. attribute_value (PSet vs) = Inr r) \<longleftrightarrow> (\<exists>xs. collect (map attribute_value vs) = Inr xs)"
    by (auto split: sum.splits)
  also have "\<dots> \<longleftrightarrow> (\<forall>v\<in>set vs. convertible v)"
    using 3 by (simp add: collect_returns)
  finally show ?case by (simp add: list_all_iff)
next
  case (4 vs)
  have "(\<exists>r. attribute_value (PList vs) = Inr r) \<longleftrightarrow> (\<exists>xs. collect (map attribute_value vs) = Inr xs)"
    by (auto split: sum.splits)
  also have "\<dots> \<longleftrightarrow> (\<forall>v\<in>set vs. convertible v)"
    using 4 by (simp add: collect_returns)
  finally show ?case by (simp add: list_all_iff)
qed auto

lemma attribute_value_entity_set:
  "attribute_value (PList (entity_set t ids)) =
     Inr (PDict [(''set'', PList (map (\<lambda>i. PDict [(''entityIdentifier'',
            PDict [(''entityType'', PStr (''PetVideosApp::'' @ t)), (''entityId'', PStr i)])]) ids))])"
  by (simp add: collect_entity_set)


text \<open>
  C8. A permission check that is given no resource (\<open>None\<close>) builds a request with
  the four keys \<open>policyStoreId\<close>, \<open>identityToken\<close>, \<open>action\<close> and \<open>resource\<close> and no
  \<open>entities\<close> key, whose resource is the placeholder entity of type
  \<open>PetVideosApp::Application\<close> with id \<open>PetVideosApp\<close>; that request is the one
  submitted. This holds for the directory check and for the video check.
\<close>

theorem placeholder_entity_on_missing_resource:
  "directory_args ps token action None =
     Inr [(''policyStoreId'', PStr ps), (''identityToken'', PStr token),
          (''action'', PDict [(''actionType'', PStr ''PetVideosApp::Action''), (''actionId'', PStr action)]),
          (''resource'', PDict [(''entityType'', PStr ''PetVideosApp::Application''),
                                (''entityId'', PStr ''PetVideosApp'')])] \<and>
   video_args ps token action None =
     Inr [(''policyStoreId'', PStr ps), (''identityToken'', PStr token),
          (''action'', PDict [(''actionType'', PStr ''PetVideosApp::Action''), (''actionId'', PStr action)]),
          (''resource'', PDict [(''entityType'', PStr ''PetVideosApp::Application''),
                                (''entityId'', PStr ''PetVideosApp'')])] \<and>
   fst (permissions_check_token_directory w ps token action None) =
     [IsAuthorizedWithToken
        [(''policyStoreId'', PStr ps), (''identityToken'', PStr token),
         (''action'', PDict [(''actionType'', PStr ''PetVideosApp::Action''), (''actionId'', PStr action)]),
         (''resource'', PDict [(''entityType'', PStr ''PetVideosApp::Application''),
                               (''entityId'', PStr ''PetVideosApp'')])]] \<and>
   fst (permissions_check_token_video w ps token action None) =
     [IsAuthorizedWithToken
        [(''policyStoreId'', PStr ps), (''identityToken'', PStr token),
         (''action'', PDict [(''actionType'', PStr ''PetVideosApp::Action''), (''actionId'', PStr action)]),
         (''resource'', PDict [(''entityType'', PStr ''PetVideosApp::Application''),
                               (''entityId'', PStr ''PetVideosApp'')])]]"
  by (simp add: directory_args_def video_args_def entity_def
        permissions_check_token_directory_def permissions_check_token_video_def split: sum.splits)


text \<open>
  C7. For a resolved directory or video, the request holds under \<open>entities\<close> one
  entity: its identifier is the pair of \<open>PetVideosApp::Directory\<close> or
  \<open>PetVideosApp::Video\<close> and the id of the resource (the same pair is the \<open>resource\<close>
  of the request), its attributes are \<open>owner\<close>, the set of the entity identifiers of
  type \<open>PetVideosApp::User\<close> of the resolved owner ids, and \<open>isPublic\<close>, a boolean,
  and its parents are the identifiers of type \<open>PetVideosApp::Directory\<close> of the
  resolved parents.
\<close>

theorem entity_context_schema:
  "directory_args ps token action (Some d) =
     Inr [(''policyStoreId'', PStr ps), (''identityToken'', PStr token),
          (''action'', PDict [(''actionType'', PStr ''PetVideosApp::Action''), (''actionId'', PStr action)]),
          (''resource'', PDict [(''entityType'', PStr ''PetVideosApp::Directory''),
                                (''entityId'', PStr (directory_id d))]),
          (''entities'', PDict [(''entityList'', PList [PDict
             [(''identifier'', PDict [(''entityType'', PStr ''PetVideosApp::Directory''),
                                      (''entityId'', PStr (directory_id d))]),
              (''attributes'', PDict
                 [(''owner'', PDict [(''set'', PList (map (\<lambda>u. PDict [(''entityIdentifier'',
                      PDict [(''entityType'', PStr ''PetVideosApp::User''), (''entityId'', PStr u)])])
                    (directory.owner_id d)))]),
                  (''isPublic'', PDict [(''boolean'', PBool (directory.isPublic d))])]),
              (''parents'', PList (map (\<lambda>p. PDict [(''entityType'', PStr ''PetVideosApp::Directory''),
                      (''entityId'', PStr p)]) (directory.parents_id d)))]])])] \<and>
   video_args ps token action (Some v) =
     Inr [(''policyStoreId'', PStr ps), (''identityToken'', PStr token),
          (''action'', PDict [(''actionType'', PStr ''PetVideosApp::Action''), (''actionId'', PStr action)]),
          (''resource'', PDict [(''entityType'', PStr ''PetVideosApp::Video''),
                                (''entityId'', PStr (video_id v))]),
          (''entities'', PDict [(''entityList'', PList [PDict
             [(''identifier'', PDict [(''entityType'', PStr ''PetVideosApp::Video''),
                                      (''entityId'', PStr (video_id v))]),
              (''attributes'', PDict
                 [(''owner'', PDict [(''set'', PList (map (\<lambda>u. PDict [(''entityIdentifier'',
                      PDict [(''entityType'', PStr ''PetVideosApp::User''), (''entityId'', PStr u)])])
                    (video.owner_id v)))]),
                  (''isPublic'', PDict [(''boolean'', PBool (video.isPublic v))])]),
              (''parents'', PList (map (\<lambda>p. PDict [(''entityType'', PStr ''PetVideosApp::Directory''),
                      (''entityId'', PStr p)]) (video.parents_id v)))]])])]"
  unfolding directory_args_def video_args_def Let_def attribute_value_entity_set
  by (simp add: entity_def entity_set_def)


text \<open>
  C9, as stated, fails on a list that holds an integer: the value is a list, and the
  conversion raises \<open>ValueError\<close>.
\<close>

theorem attribute_value_list_raises: 
  "attribute_value (PList [PInt 1]) =
     Inl (Exn ValueError ''Unknown attribute value type: <class 'int'>'')"
  by simp


text \<open>
  C9, amended. \<open>attribute_value\<close> tags a string with \<open>string\<close>, a boolean with
  \<open>boolean\<close> and a dictionary with \<open>entityIdentifier\<close>; it turns a list or a set all of
  whose elements convert into the \<open>set\<close> of the converted elements; and it raises
  \<open>ValueError\<close> exactly when the value is of another type or is a list or set that
  holds, at any depth of lists and sets, a value of another type.
\<close>

theorem attribute_value_raises_iff:
  "attribute_value (PStr s) = Inr (PDict [(''string'', PStr s)]) \<and>
   attribute_value (PBool b) = Inr (PDict [(''boolean'', PBool b)]) \<and>
   attribute_value (PDict d) = Inr (PDict [(''entityIdentifier'', PDict d)]) \<and>
   (list_all convertible vs \<longrightarrow>
      (\<exists>rs. map attribute_value vs = map Inr rs \<and>
            attribute_value (PList vs) = Inr (PDict [(''set'', PList rs)]) \<and>
            attribute_value (PSet vs) = Inr (PDict [(''set'', PList rs)]))) \<and>
   ((\<exists>m. attribute_value v = Inl (Exn ValueError m)) \<longleftrightarrow> \<not> convertible v) \<and>
   ((\<exists>r. attribute_value v = Inr r) \<longleftrightarrow> convertible v)"
proof -
  have lists: "\<exists>rs. map attribute_value vs = map Inr rs \<and>
            attribute_value (PList vs) = Inr (PDict [(''set'', PList rs)]) \<and>
            attribute_value (PSet vs) = Inr (PDict [(''set'', PList rs)])"
    if "list_all convertible vs"
  proof -
    from that have "\<forall>v\<in>set vs. \<exists>r. attribute_value v = Inr r"
      by (simp add: list_all_iff attribute_value_convertible)
    then obtain rs where "collect (map attribute_value vs) = Inr rs"
      using collect_returns[of attribute_value vs] by blast
    then have "map attribute_value vs = map Inr rs"
      by (simp add: collect_Inr)
    with \<open>collect (map attribute_value vs) = Inr rs\<close> show ?thesis by auto
  qed
  have raises: "(\<exists>m. attribute_value v = Inl (Exn ValueError m)) \<longleftrightarrow> \<not> convertible v"
    using attribute_value_convertible[of v] attribute_value_raises_ValueError[of v]
    by (cases "attribute_value v") auto
  show ?thesis using lists raises attribute_value_convertible[of v] by simp
qed

theorem attribute_value_raises_iff_witness:
  "list_all convertible [PStr ''a'', PSet [PBool True]] \<and>
   attribute_value (PList [PStr ''a'', PSet [PBool True]]) =
     Inr (PDict [(''set'', PList [PDict [(''string'', PStr ''a'')],
                                  PDict [(''set'', PList [PDict [(''boolean'', PBool True)]])]])]) \<and>
   \<not> convertible (PList [PNone]) \<and>
   (\<exists>m. attribute_value (PList [PNone]) = Inl (Exn ValueError m))"
  using attribute_value_raises_iff [of "''a''" True "[]" "[PStr ''a'', PSet [PBool True]]" "PList [PNone]"]
  by simp


section \<open>Hierarchy resolution\<close>

lemma set_dedup_from: "set (dedup_from seen ts) = set ts - set seen"
  by (induction ts arbitrary: seen) auto

lemma set_dedup: "set (dedup ts) = set ts"
  by (simp add: dedup_def set_dedup_from)

lemma distinct_dedup_from: "distinct (dedup_from seen ts)"
  by (induction ts arbitrary: seen) (auto simp: set_dedup_from)

lemma distinct_dedup: "distinct (dedup ts)"
  by (simp add: dedup_def distinct_dedup_from)

lemma set_out: "set (out g l ts) = {d. \<exists>t\<in>set ts. (t, l, d) \<in> set (edges g)}"
  by (force simp: out_def)

lemma set_in_step: "set (in_step g l ts) = {s. \<exists>t\<in>set ts. (s, l, t) \<in> set (edges g)}"
  by (force simp: in_step_def)

lemma set_values_step: "set (values_step g key ts) = {x. \<exists>t\<in>set ts. key (vertex_of g t) = Some x}"
  by (auto simp: values_step_def split: option.splits)

lemma has_single: "has g key x [t] \<noteq> [] \<longleftrightarrow> key (vertex_of g t) = Some x"
  by (simp add: has_def)

lemma repeat_until_diverges:
  assumes "ts \<in> A" and "[] \<notin> A"
    and closed: "\<And>us. us \<in> A \<Longrightarrow> filter (\<lambda>t. cond [t] = []) (step us) \<in> A"
  shows "repeat_until step cond ts = None"
proof -
  have "\<not> (s = step \<and> c = cond \<and> us \<in> A)" if "repeat_until s c us = Some y" for s c us y
  proof (rule repeat_until.raw_induct[where P = "\<lambda>s c us y. \<not> (s = step \<and> c = cond \<and> us \<in> A)", OF _ that])
    fix rec :: "(nat list \<Rightarrow> nat list) \<Rightarrow> (nat list \<Rightarrow> nat list) \<Rightarrow> nat list \<Rightarrow> nat list option"
    fix s c us y
    assume IH: "\<And>s c us y. rec s c us = Some y \<Longrightarrow> \<not> (s = step \<and> c = cond \<and> us \<in> A)"
      and body: "(if us = [] then Some []
          else Option.bind (rec s c (filter (\<lambda>t. c [t] = []) (s us)))
                 (\<lambda>rest. Some (filter (\<lambda>t. c [t] \<noteq> []) (s us) @ rest))) = Some y"
    show "\<not> (s = step \<and> c = cond \<and> us \<in> A)"
    proof
      assume h: "s = step \<and> c = cond \<and> us \<in> A"
      with assms(2) have ne: "us \<noteq> []" by auto
      from body ne obtain rest where "rec s c (filter (\<lambda>t. c [t] = []) (s us)) = Some rest"
        by (auto simp: bind_eq_Some_conv)
      from IH[OF this] h closed show False by auto
    qed
  qed
  then show ?thesis using assms(1) by (cases "repeat_until step cond ts") auto
qed

lemma repeat_until_returns:
  fixes rank :: "nat \<Rightarrow> nat"
  assumes dec: "\<And>t x. x \<in> set (step [t]) \<Longrightarrow> cond [x] = [] \<Longrightarrow> rank x < rank t"
    and distr: "\<And>us. set (step us) = (\<Union>t\<in>set us. set (step [t]))"
  shows "\<exists>rs. repeat_until step cond ts = Some rs"
proof -
  have bounded: "(\<forall>t\<in>set us. rank t < n) \<Longrightarrow> \<exists>rs. repeat_until step cond us = Some rs" for n us
  proof (induction n arbitrary: us)
    case 0
    then have "us = []" by (cases us) auto
    then show ?case by (simp add: repeat_until.simps)
  next
    case (Suc n)
    have "\<forall>x\<in>set (filter (\<lambda>t. cond [t] = []) (step us)). rank x < n"
    proof
      fix x assume "x \<in> set (filter (\<lambda>t. cond [t] = []) (step us))"
      then have x: "x \<in> set (step us)" "cond [x] = []" by auto
      then obtain t where t: "t \<in> set us" "x \<in> set (step [t])" using distr[of us] by auto
      from dec[OF t(2) x(2)] Suc.prems t(1) show "rank x < n" by fastforce
    qed
    from Suc.IH[OF this] obtain rest
      where "repeat_until step cond (filter (\<lambda>t. cond [t] = []) (step us)) = Some rest" by blast
    then show ?case by (subst repeat_until.simps) simp
  qed
  have "\<forall>t\<in>set ts. rank t < Suc (sum_list (map rank ts))"
    by (auto simp: less_Suc_eq_le member_le_sum_list)
  from bounded[OF this] show ?thesis .
qed

lemma reaches_root_step:
  "reaches_root g t r \<longleftrightarrow>
     (\<exists>x. (t, ''MEMBEROF'', x) \<in> set (edges g) \<and>
        (if v_name (vertex_of g x) = Some ''petVideosDirectory'' then r = x else reaches_root g x r))"
  by (subst reaches_root.simps) auto

lemma to_root_set:
  assumes "to_root g ts = Some rs"
  shows "set rs = {r. \<exists>t\<in>set ts. reaches_root g t r}"
proof -
  let ?S = "out g ''MEMBEROF''" and ?C = "has g v_name ''petVideosDirectory''"
  let ?P = "\<lambda>s c us y. s = ?S \<longrightarrow> c = ?C \<longrightarrow> set y = {r. \<exists>t\<in>set us. reaches_root g t r}"
  have "?P ?S ?C ts rs"
  proof (rule repeat_until.raw_induct[where P = ?P, OF _ assms[unfolded to_root_def]])
    fix rec :: "(nat list \<Rightarrow> nat list) \<Rightarrow> (nat list \<Rightarrow> nat list) \<Rightarrow> nat list \<Rightarrow> nat list option"
    fix s c us y
    assume IH: "\<And>s c us y. rec s c us = Some y \<Longrightarrow> ?P s c us y"
      and body: "(if us = [] then Some []
          else Option.bind (rec s c (filter (\<lambda>t. c [t] = []) (s us)))
                 (\<lambda>rest. Some (filter (\<lambda>t. c [t] \<noteq> []) (s us) @ rest))) = Some y"
    show "?P s c us y"
    proof (intro impI)
      assume s: "s = ?S" and c: "c = ?C"
      show "set y = {r. \<exists>t\<in>set us. reaches_root g t r}"
      proof (cases "us = []")
        case True
        with body show ?thesis by simp
      next
        case False
        with body obtain rest where rest: "rec s c (filter (\<lambda>t. c [t] = []) (s us)) = Some rest"
          and y: "y = filter (\<lambda>t. c [t] \<noteq> []) (s us) @ rest"
          by (auto simp: bind_eq_Some_conv)
        from IH[OF rest] s c
        have r: "set rest = {r. \<exists>t\<in>set (filter (\<lambda>t. ?C [t] = []) (?S us)). reaches_root g t r}"
          by simp
        have cnd: "?C [x] = [] \<longleftrightarrow> v_name (vertex_of g x) \<noteq> Some ''petVideosDirectory''" for x
          by (simp add: has_def)
        have rr: "{r. \<exists>t\<in>set us. reaches_root g t r} =
            {r. \<exists>t\<in>set us. \<exists>x. (t, ''MEMBEROF'', x) \<in> set (edges g) \<and>
               (if v_name (vertex_of g x) = Some ''petVideosDirectory'' then r = x else reaches_root g x r)}"
          using reaches_root_step[of g] by simp
        show ?thesis
          unfolding y s c set_append r
          by (simp only: set_filter set_out cnd rr) (auto split: if_splits)
      qed
    qed
  qed
  then show ?thesis by simp
qed

lemma out_distr: "set (out g l us) = (\<Union>t\<in>set us. set (out g l [t]))"
  by (auto simp: set_out)

lemma to_root_returns:
  assumes "walk_ends g rank"
  shows "\<exists>rs. to_root g ts = Some rs"
  unfolding to_root_def
proof (rule repeat_until_returns[where rank = rank])
  fix t x
  assume "x \<in> set (out g ''MEMBEROF'' [t])" and "has g v_name ''petVideosDirectory'' [x] = []"
  then have "(t, ''MEMBEROF'', x) \<in> set (edges g)" "v_name (vertex_of g x) \<noteq> Some ''petVideosDirectory''"
    by (auto simp: set_out has_def split: if_splits)
  with assms show "rank x < rank t"
    unfolding walk_ends_def by fastforce
next
  fix us show "set (out g ''MEMBEROF'' us) = (\<Union>t\<in>set us. set (out g ''MEMBEROF'' [t]))"
    by (rule out_distr)
qed

lemma union_step_returns:
  assumes "\<And>t. \<exists>r. b [t] = Some r"
  shows "\<exists>rs. union_step a b ts = Some rs"
proof (induction ts)
  case Nil
  show ?case by simp
next
  case (Cons t ts)
  from assms[of t] obtain r where "b [t] = Some r" by blast
  with Cons show ?case by auto
qed

lemma owner_traversal_returns:
  assumes "walk_ends g rank"
  shows "\<exists>rs. owner_traversal g ts = Some rs"
proof -
  have "\<exists>r. map_option (in_step g ''OWNER'') (to_root g [t]) = Some r" for t
    using to_root_returns[OF assms, of "[t]"] by auto
  from union_step_returns[of "\<lambda>s. map_option (in_step g ''OWNER'') (to_root g s)", OF this]
  show ?thesis unfolding owner_traversal_def by (metis option.simps(9))
qed

lemma parents_traversal_returns:
  assumes "walk_ends g rank"
  shows "\<exists>rs. parents_traversal g ts = Some rs"
proof -
  have "\<exists>r. to_root g [t] = Some r" for t
    using to_root_returns[OF assms, of "[t]"] by auto
  from union_step_returns[of "to_root g", OF this]
  show ?thesis unfolding parents_traversal_def by (metis option.simps(9))
qed

lemma bind_not_Diverges:
  "m \<noteq> Diverges \<Longrightarrow> (\<And>x. m = Returns x \<Longrightarrow> f x \<noteq> Diverges) \<Longrightarrow> bind m f \<noteq> Diverges"
  by (cases m) auto

lemma next_step_not_Diverges: "next_step xs \<noteq> Diverges"
  by (cases xs) auto

lemma toList_not_Diverges: "\<exists>y. x = Some y \<Longrightarrow> toList (map_option f x) \<noteq> Diverges"
  by auto

lemma query_directory_info_not_Diverges:
  assumes "walk_ends g rank"
  shows "query_directory_info (Connected g) n \<noteq> Diverges"
  unfolding query_directory_info_def
  by (simp add: Let_def)
     (intro impI bind_not_Diverges next_step_not_Diverges toList_not_Diverges
        owner_traversal_returns[OF assms] parents_traversal_returns[OF assms], simp)

lemma query_video_info_not_Diverges:
  assumes "walk_ends g rank"
  shows "query_video_info (Connected g) n \<noteq> Diverges"
  unfolding query_video_info_def
  by (simp add: Let_def)
     (intro impI bind_not_Diverges next_step_not_Diverges toList_not_Diverges
        owner_traversal_returns[OF assms] parents_traversal_returns[OF assms], simp)

lemma union_step_single: "union_step a b [v] = map_option (\<lambda>rb. a [v] @ rb) (b [v])"
  by (cases "b [v]") auto

lemma owner_traversal_single:
  "to_root g [v] = Some rs \<Longrightarrow>
   owner_traversal g [v] = Some (dedup (in_step g ''OWNER'' [v] @ in_step g ''OWNER'' rs))"
  by (simp add: owner_traversal_def union_step_single)

lemma parents_traversal_single:
  "to_root g [v] = Some rs \<Longrightarrow>
   parents_traversal g [v] = Some (dedup (out g ''MEMBEROF'' [v] @ rs))"
  by (simp add: parents_traversal_def union_step_single)

lemma is_resource_name:
  assumes "is_resource g l key n v i p"
  shows "v_name (vertex_of g v) = Some n"
proof -
  from assms have "v \<in> set (has g v_name n (hasLabel g l (V g)))"
    by (simp add: is_resource_def)
  then show ?thesis by (simp add: has_def)
qed

lemma has_name_single:
  "v_name (vertex_of g v) = Some n \<Longrightarrow> has g v_name n [v] = [v]"
  by (simp add: has_def)

lemma values_step_single: "key (vertex_of g v) = Some x \<Longrightarrow> values_step g key [v] = [x]"
  by (simp add: values_step_def)

lemma query_directory_info_resource:
  assumes res: "is_resource g ''directory'' v_directoryId n v i p"
    and root: "to_root g [v] = Some rs"
  shows "query_directory_info (Connected g) n =
     Returns (Some \<lparr>directory_id = i, directory_name = n, directory_vertex = v,
       directory.owner_id = values_step g v_userId (dedup (in_step g ''OWNER'' [v] @ in_step g ''OWNER'' rs)),
       directory.owner_name = values_step g v_name (dedup (in_step g ''OWNER'' [v] @ in_step g ''OWNER'' rs)),
       directory.parents_id = values_step g v_directoryId (dedup (out g ''MEMBEROF'' [v] @ rs)),
       directory.isPublic = p\<rparr>)"
proof -
  from res have named: "has g v_name n (hasLabel g ''directory'' (V g)) = [v]"
    and key: "v_directoryId (vertex_of g v) = Some i"
    and ident: "has g v_directoryId i (hasLabel g ''directory'' (V g)) = [v]"
    and pub: "v_isPublic (vertex_of g v) = Some p"
    by (simp_all add: is_resource_def)
  note nm = has_name_single[OF is_resource_name[OF res]]
  show ?thesis
    unfolding query_directory_info_def
    by (simp add: named ident nm values_step_single[where key = v_directoryId, OF key]
          values_step_single[where key = v_isPublic, OF pub]
          owner_traversal_single[OF root] parents_traversal_single[OF root])
qed

lemma query_video_info_resource:
  assumes res: "is_resource g ''video'' v_videoId n v i p"
    and root: "to_root g [v] = Some rs"
  shows "query_video_info (Connected g) n =
     Returns (Some \<lparr>video_id = i, video_name = n, video_vertex = v,
       video.owner_id = values_step g v_userId (dedup (in_step g ''OWNER'' [v] @ in_step g ''OWNER'' rs)),
       video.owner_name = values_step g v_name (dedup (in_step g ''OWNER'' [v] @ in_step g ''OWNER'' rs)),
       video.parents_id = values_step g v_directoryId (dedup (out g ''MEMBEROF'' [v] @ rs)),
       video.isPublic = p\<rparr>)"
proof -
  from res have named: "has g v_name n (hasLabel g ''video'' (V g)) = [v]"
    and key: "v_videoId (vertex_of g v) = Some i"
    and ident: "has g v_videoId i (hasLabel g ''video'' (V g)) = [v]"
    and pub: "v_isPublic (vertex_of g v) = Some p"
    by (simp_all add: is_resource_def)
  note nm = has_name_single[OF is_resource_name[OF res]]
  show ?thesis
    unfolding query_video_info_def
    by (simp add: named ident nm values_step_single[where key = v_videoId, OF key]
          values_step_single[where key = v_isPublic, OF pub]
          owner_traversal_single[OF root] parents_traversal_single[OF root])
qed

lemma to_root_no_edge: "out g ''MEMBEROF'' [v] = [] \<Longrightarrow> to_root g [v] = Some []"
  unfolding to_root_def
  by (subst repeat_until.simps, simp, subst repeat_until.simps, simp)

lemma out_Cons: "out g l (t # ts) = out g l [t] @ out g l ts"
  by (simp add: out_def)

lemma forest_out: 
  assumes "forest g"
  shows "length (out g ''MEMBEROF'' [t]) \<le> 1"
proof (cases "out g ''MEMBEROF'' [t]")
  case Nil
  then show ?thesis by simp
next
  case (Cons x xs)
  then have "x \<in> set (out g ''MEMBEROF'' [t])" by simp
  then have "(t, ''MEMBEROF'', x) \<in> set (edges g)" by (simp add: set_out)
  with assms show ?thesis unfolding forest_def by fastforce
qed

lemma forest_out_length:
  assumes "forest g"
  shows "length (out g ''MEMBEROF'' ts) \<le> length ts"
proof (induction ts)
  case Nil
  show ?case by (simp add: out_def)
next
  case (Cons t ts)
  from forest_out[OF assms, of t] Cons show ?case
    by (subst out_Cons) simp
qed

lemma to_root_forest:
  assumes f: "forest g" and r: "to_root g ts = Some rs"
  shows "length rs \<le> length ts"
proof -
  let ?S = "out g ''MEMBEROF''" and ?C = "has g v_name ''petVideosDirectory''"
  let ?P = "\<lambda>s c us y. s = ?S \<longrightarrow> length y \<le> length us"
  have "?P ?S ?C ts rs"
  proof (rule repeat_until.raw_induct[where P = ?P, OF _ r[unfolded to_root_def]])
    fix rec :: "(nat list \<Rightarrow> nat list) \<Rightarrow> (nat list \<Rightarrow> nat list) \<Rightarrow> nat list \<Rightarrow> nat list option"
    fix s c us y
    assume IH: "\<And>s c us y. rec s c us = Some y \<Longrightarrow> ?P s c us y"
      and body: "(if us = [] then Some []
          else Option.bind (rec s c (filter (\<lambda>t. c [t] = []) (s us)))
                 (\<lambda>rest. Some (filter (\<lambda>t. c [t] \<noteq> []) (s us) @ rest))) = Some y"
    show "?P s c us y"
    proof
      assume s: "s = ?S"
      show "length y \<le> length us"
      proof (cases "us = []")
        case True
        with body show ?thesis by simp
      next
        case False
        with body obtain rest where rest: "rec s c (filter (\<lambda>t. c [t] = []) (s us)) = Some rest"
          and y: "y = filter (\<lambda>t. c [t] \<noteq> []) (s us) @ rest"
          by (auto simp: bind_eq_Some_conv)
        from IH[OF rest] s have "length rest \<le> length (filter (\<lambda>t. c [t] = []) (s us))" by simp
        moreover have "length (filter (\<lambda>t. c [t] \<noteq> []) (s us)) + length (filter (\<lambda>t. c [t] = []) (s us))
            = length (s us)"
          using sum_length_filter_compl[of "\<lambda>t. c [t] \<noteq> []" "s us"] by simp
        moreover have "length (s us) \<le> length us" using forest_out_length[OF f] s by simp
        ultimately show ?thesis using y by simp
      qed
    qed
  qed
  then show ?thesis by simp
qed

lemma to_root_cyclic: "to_root cyclic_graph [0] = None"
  unfolding to_root_def
proof (rule repeat_until_diverges[where A = "{[0], [1]}"])
  fix us :: "nat list"
  assume "us \<in> {[0], [1]}"
  then show "filter (\<lambda>t. has cyclic_graph v_name ''petVideosDirectory'' [t] = [])
      (out cyclic_graph ''MEMBEROF'' us) \<in> {[0], [1]}"
    by (auto simp: out_def has_def cyclic_graph_def mk_directory_def)
qed simp_all

lemma bind_Raises:
  "bind m f = Raises e \<longleftrightarrow> m = Raises e \<or> (\<exists>x. m = Returns x \<and> f x = Raises e)"
  by (cases m) auto

lemma next_step_Raises: "next_step xs = Raises e \<longleftrightarrow> xs = [] \<and> e = Exn StopIteration []"
  by (cases xs) auto

lemma toList_Raises: "toList x \<noteq> Raises e"
  by (cases x) auto

lemma query_directory_info_raises:
  "query_directory_info (Connected g) n = Raises e \<Longrightarrow> e = Exn StopIteration []"
  unfolding query_directory_info_def Let_def
  by (auto simp: bind_Raises next_step_Raises toList_Raises split: if_splits)

lemma query_video_info_raises:
  "query_video_info (Connected g) n = Raises e \<Longrightarrow> e = Exn StopIteration []"
  unfolding query_video_info_def Let_def
  by (auto simp: bind_Raises next_step_Raises toList_Raises split: if_splits)

lemmas sample_graph_defs = V_def hasLabel_def has_def out_def in_step_def values_step_def
  mk_user_def mk_directory_def mk_video_def


section \<open>Termination of the walk\<close>

text \<open>
  C2, as stated, fails on two directories that are members of each other: the query
  for one of them raises no failure and does not return.
\<close>

theorem cyclic_walk_does_not_return:
  "query_directory_info (Connected cyclic_graph) ''ring-a'' = Diverges"
proof -
  have "owner_traversal cyclic_graph [0] = None"
    by (simp add: owner_traversal_def to_root_cyclic)
  moreover have "has cyclic_graph v_name ''ring-a'' (hasLabel cyclic_graph ''directory'' (V cyclic_graph)) = [0]"
    and "has cyclic_graph v_directoryId ''d-a'' (hasLabel cyclic_graph ''directory'' (V cyclic_graph)) = [0]"
    and "values_step cyclic_graph v_directoryId [0] = [''d-a'']"
    and "has cyclic_graph v_name ''ring-a'' [0] = [0]"
    by (simp_all add: cyclic_graph_def sample_graph_defs)
  ultimately show ?thesis
    by (simp add: query_directory_info_def)
qed

text \<open>
  C2, amended. The ancestor walk stops at a directory named \<open>petVideosDirectory\<close> or
  where no \<open>MEMBEROF\<close> edge goes on: on every graph in which the \<open>MEMBEROF\<close> edges
  that do not lead into such a directory form no cycle, \<open>query_directory_info\<close> and
  \<open>query_video_info\<close> return, with a result or with the \<open>StopIteration\<close> of a missing
  property; no number of hops bounds the walk and no other failure is raised.
\<close>

theorem walk_returns_when_edges_end:
  assumes "walk_ends g rank"
  shows "((\<exists>d. query_directory_info (Connected g) n = Returns d) \<or>
          query_directory_info (Connected g) n = Raises (Exn StopIteration [])) \<and>
         ((\<exists>v. query_video_info (Connected g) n = Returns v) \<or>
          query_video_info (Connected g) n = Raises (Exn StopIteration []))"
proof -
  have "(\<exists>d. query_directory_info (Connected g) n = Returns d) \<or>
          query_directory_info (Connected g) n = Raises (Exn StopIteration [])"
    using query_directory_info_not_Diverges[OF assms, of n] query_directory_info_raises[of g n]
    by (cases "query_directory_info (Connected g) n") auto
  moreover have "(\<exists>v. query_video_info (Connected g) n = Returns v) \<or>
          query_video_info (Connected g) n = Raises (Exn StopIteration [])"
    using query_video_info_not_Diverges[OF assms, of n] query_video_info_raises[of g n]
    by (cases "query_video_info (Connected g) n") auto
  ultimately show ?thesis by simp
qed

theorem walk_returns_when_edges_end_witness:
  "walk_ends deep_graph (\<lambda>v. v) \<and>
   (((\<exists>d. query_directory_info (Connected deep_graph) ''sub'' = Returns d) \<or>
      query_directory_info (Connected deep_graph) ''sub'' = Raises (Exn StopIteration [])) \<and>
    ((\<exists>v. query_video_info (Connected deep_graph) ''sub'' = Returns v) \<or>
      query_video_info (Connected deep_graph) ''sub'' = Raises (Exn StopIteration [])))"
proof -
  have w: "walk_ends deep_graph (\<lambda>v. v)"
    by (simp add: walk_ends_def deep_graph_def mk_directory_def mk_user_def mk_video_def)
  from walk_returns_when_edges_end [OF w, of "''sub''"] w show ?thesis by simp
qed

lemma dedup_Nil: "dedup [] = []"
  by (simp add: dedup_def)

lemma values_step_Nil: "values_step g key [] = []"
  by (simp add: values_step_def)

lemma in_step_Nil: "in_step g l [] = []"
  by (simp add: in_step_def)


section \<open>Branching membership\<close>

text \<open>
  C5, as stated, fails on a video with two outgoing \<open>MEMBEROF\<close> edges: the query
  returns a resolved hierarchy that lists both parents and the root.
\<close>

theorem branching_membership_resolves:
  "query_video_info (Connected branching_graph) ''clip.mp4'' =
     Returns (Some \<lparr>video_id = ''v-clip'', video_name = ''clip.mp4'', video_vertex = 4,
       video.owner_id = [''u-bob''], video.owner_name = [''bob''],
       video.parents_id = [''d-left'', ''d-right'', ''d-root''], video.isPublic = False\<rparr>)"
  by code_simp

text \<open>
  C5, amended. Whatever the number of outgoing \<open>MEMBEROF\<close> edges of a resource
  vertex that its name and its id single out, on a graph where the walk ends
  hierarchy resolution returns a resolved
  hierarchy and no failure: its \<open>parents_id\<close> holds the \<open>directoryId\<close> of the target of
  every such edge; with no such edge the walk stops at once, \<open>parents_id\<close> is empty and
  \<open>owner_id\<close> holds the direct owners of the resource.
\<close>

theorem every_membership_edge_followed:
  assumes "walk_ends g rank"
  shows "(is_resource g ''directory'' v_directoryId n v i p \<longrightarrow>
            (\<exists>d. query_directory_info (Connected g) n = Returns (Some d) \<and>
                 set (values_step g v_directoryId (out g ''MEMBEROF'' [v])) \<subseteq> set (directory.parents_id d) \<and>
                 (out g ''MEMBEROF'' [v] = [] \<longrightarrow>
                    directory.parents_id d = [] \<and>
                    directory.owner_id d = values_step g v_userId (dedup (in_step g ''OWNER'' [v]))))) \<and>
         (is_resource g ''video'' v_videoId n' v' i' p' \<longrightarrow>
            (\<exists>d. query_video_info (Connected g) n' = Returns (Some d) \<and>
                 set (values_step g v_directoryId (out g ''MEMBEROF'' [v'])) \<subseteq> set (video.parents_id d) \<and>
                 (out g ''MEMBEROF'' [v'] = [] \<longrightarrow>
                    video.parents_id d = [] \<and>
                    video.owner_id d = values_step g v_userId (dedup (in_step g ''OWNER'' [v'])))))"
proof (intro conjI impI)
  assume res: "is_resource g ''directory'' v_directoryId n v i p"
  from to_root_returns[OF assms] obtain rs where rs: "to_root g [v] = Some rs" by blast
  have empty: "rs = []" if "out g ''MEMBEROF'' [v] = []"
    using to_root_no_edge[OF that] rs by simp
  show "\<exists>d. query_directory_info (Connected g) n = Returns (Some d) \<and>
                 set (values_step g v_directoryId (out g ''MEMBEROF'' [v])) \<subseteq> set (directory.parents_id d) \<and>
                 (out g ''MEMBEROF'' [v] = [] \<longrightarrow>
                    directory.parents_id d = [] \<and>
                    directory.owner_id d = values_step g v_userId (dedup (in_step g ''OWNER'' [v])))"
    unfolding query_directory_info_resource[OF res rs]
    using empty by (auto simp: set_values_step set_dedup in_step_Nil values_step_Nil dedup_Nil)
next
  assume res: "is_resource g ''video'' v_videoId n' v' i' p'"
  from to_root_returns[OF assms] obtain rs where rs: "to_root g [v'] = Some rs" by blast
  have empty: "rs = []" if "out g ''MEMBEROF'' [v'] = []"
    using to_root_no_edge[OF that] rs by simp
  show "\<exists>d. query_video_info (Connected g) n' = Returns (Some d) \<and>
                 set (values_step g v_directoryId (out g ''MEMBEROF'' [v'])) \<subseteq> set (video.parents_id d) \<and>
                 (out g ''MEMBEROF'' [v'] = [] \<longrightarrow>
                    video.parents_id d = [] \<and>
                    video.owner_id d = values_step g v_userId (dedup (in_step g ''OWNER'' [v'])))"
    unfolding query_video_info_resource[OF res rs]
    using empty by (auto simp: set_values_step set_dedup in_step_Nil values_step_Nil dedup_Nil)
qed

theorem every_membership_edge_followed_witness:
  "walk_ends branching_graph (\<lambda>v. v) \<and>
   is_resource branching_graph ''directory'' v_directoryId ''petVideosDirectory'' 1 ''d-root'' False \<and>
   out branching_graph ''MEMBEROF'' [1] = [] \<and>
   (\<exists>d. query_directory_info (Connected branching_graph) ''petVideosDirectory'' = Returns (Some d) \<and>
        directory.parents_id d = [] \<and>
        directory.owner_id d = values_step branching_graph v_userId (dedup (in_step branching_graph ''OWNER'' [1]))) \<and>
   is_resource branching_graph ''video'' v_videoId ''clip.mp4'' 4 ''v-clip'' False \<and>
   out branching_graph ''MEMBEROF'' [4] = [2, 3] \<and>
   (\<exists>d. query_video_info (Connected branching_graph) ''clip.mp4'' = Returns (Some d) \<and>
        set (values_step branching_graph v_directoryId [2, 3]) \<subseteq> set (video.parents_id d))"
proof -
  have w: "walk_ends branching_graph (\<lambda>v. v)"
    by (simp add: walk_ends_def branching_graph_def mk_directory_def mk_user_def mk_video_def)
  have r: "is_resource branching_graph ''directory'' v_directoryId ''petVideosDirectory'' 1 ''d-root'' False"
    and c: "is_resource branching_graph ''video'' v_videoId ''clip.mp4'' 4 ''v-clip'' False"
    and o1: "out branching_graph ''MEMBEROF'' [1] = []"
    and o4: "out branching_graph ''MEMBEROF'' [4] = [2, 3]"
    by (simp_all add: is_resource_def branching_graph_def sample_graph_defs)
  note t = every_membership_edge_followed [OF w, of "''petVideosDirectory''" 1 "''d-root''" False
      "''clip.mp4''" 4 "''v-clip''" False]
  from t r o1 have d: "\<exists>d. query_directory_info (Connected branching_graph) ''petVideosDirectory'' = Returns (Some d) \<and>
        directory.parents_id d = [] \<and>
        directory.owner_id d = values_step branching_graph v_userId (dedup (in_step branching_graph ''OWNER'' [1]))"
    by blast
  from t c have v: "\<exists>d. query_video_info (Connected branching_graph) ''clip.mp4'' = Returns (Some d) \<and>
        set (values_step branching_graph v_directoryId (out branching_graph ''MEMBEROF'' [4])) \<subseteq> set (video.parents_id d)"
    by blast
  from w r o1 d c o4 v[unfolded o4] show ?thesis by (intro conjI)
qed


lemma forest_parent_unique:
  assumes "forest g" "(t, ''MEMBEROF'', x) \<in> set (edges g)" "(t, ''MEMBEROF'', y) \<in> set (edges g)"
  shows "x = y"
proof -
  from assms(2,3) have "x \<in> set (out g ''MEMBEROF'' [t])" "y \<in> set (out g ''MEMBEROF'' [t])"
    by (auto simp: set_out)
  moreover from forest_out[OF assms(1), of t] obtain z where "set (out g ''MEMBEROF'' [t]) \<subseteq> {z}"
    by (cases "out g ''MEMBEROF'' [t]") auto
  ultimately show ?thesis by auto
qed

lemma reaches_root_unique:
  assumes "forest g" "reaches_root g t r" "reaches_root g t r'"
  shows "r = r'"
  using assms(2,3)
proof (induction arbitrary: r' rule: reaches_root.induct)
  case (arrive t r)
  from arrive.prems show ?case
  proof (cases rule: reaches_root.cases)
    case arrive
    with forest_parent_unique[OF assms(1)] \<open>(t, ''MEMBEROF'', r) \<in> set (edges g)\<close> show ?thesis by blast
  next
    case (climb x)
    with forest_parent_unique[OF assms(1) \<open>(t, ''MEMBEROF'', r) \<in> set (edges g)\<close>, of x]
      \<open>v_name (vertex_of g r) = Some ''petVideosDirectory''\<close>
    show ?thesis by auto
  qed
next
  case (climb t x r)
  from climb.prems show ?case
  proof (cases rule: reaches_root.cases)
    case arrive
    with forest_parent_unique[OF assms(1) \<open>(t, ''MEMBEROF'', x) \<in> set (edges g)\<close>, of r']
      \<open>v_name (vertex_of g x) \<noteq> Some ''petVideosDirectory''\<close>
    show ?thesis by auto
  next
    case (climb y)
    with forest_parent_unique[OF assms(1) \<open>(t, ''MEMBEROF'', x) \<in> set (edges g)\<close>, of y]
    have "reaches_root g x r'" by auto
    with climb.IH show ?thesis by blast
  qed
qed

lemma contributors_at_most_two:
  assumes "forest g"
  shows "card {s. s = v \<or> reaches_root g v s} \<le> 2"
proof (cases "\<exists>r. reaches_root g v r")
  case True
  then obtain r where r: "reaches_root g v r" by blast
  have "{s. s = v \<or> reaches_root g v s} \<subseteq> {v, r}"
    using reaches_root_unique[OF assms r] by auto
  then have "card {s. s = v \<or> reaches_root g v s} \<le> card {v, r}"
    by (intro card_mono) auto
  also have "\<dots> \<le> 2" by (simp add: card_insert_if)
  finally show ?thesis .
next
  case False
  then have "{s. s = v \<or> reaches_root g v s} = {v}" by auto
  then show ?thesis by simp
qed

lemma reaches_root_edge:
  assumes "reaches_root g v r"
  shows "out g ''MEMBEROF'' [v] \<noteq> []"
proof -
  from assms obtain x where "(v, ''MEMBEROF'', x) \<in> set (edges g)"
    by (cases rule: reaches_root.cases) auto
  then have "x \<in> set (out g ''MEMBEROF'' [v])" by (simp add: set_out)
  then show ?thesis by auto
qed

lemma contributors_depth:
  assumes f: "forest g" and chain: "spec_ancestor_chain g k v = Inr chain"
    and nr: "v_name (vertex_of g v) \<noteq> Some ''petVideosDirectory''"
  shows "card {s. s = v \<or> reaches_root g v s} \<le> length chain + 1"
proof (cases "out g ''MEMBEROF'' [v]")
  case Nil
  with reaches_root_edge[of g v] have "{s. s = v \<or> reaches_root g v s} = {v}" by auto
  then show ?thesis by simp
next
  case (Cons p ps)
  from forest_out[OF f, of v] Cons have ps: "ps = []" by simp
  have "chain \<noteq> []"
  proof (cases k)
    case 0
    with chain nr Cons show ?thesis by simp
  next
    case (Suc k')
    with chain nr Cons ps show ?thesis by (auto split: sum.splits)
  qed
  then have "2 \<le> length chain + 1" by (cases chain) auto
  with contributors_at_most_two[OF f, of v] show ?thesis by linarith
qed

section \<open>The owners\<close>

text \<open>
  C1, as stated, fails on the directory sub, two levels below the root: alice owns
  its parent mid, the closure of the specification holds her, and the \<open>owner_id\<close> that
  \<open>query_directory_info\<close> returns is empty.
\<close>

theorem intermediate_owner_left_out:
  "query_directory_info (Connected deep_graph) ''sub'' =
     Returns (Some \<lparr>directory_id = ''d-sub'', directory_name = ''sub'', directory_vertex = 3,
       directory.owner_id = [], directory.owner_name = [],
       directory.parents_id = [''d-mid'', ''d-root''], directory.isPublic = False\<rparr>) \<and>
   spec_owner_id deep_graph 5 3 = Inr [''u-alice'']"
  by code_simp

text \<open>
  C1, amended. For every resource (directory or video) that its name and its id single
  out, on a graph where the walk ends, the \<open>owner_id\<close> list of \<open>query_directory_info\<close>
  and \<open>query_video_info\<close> holds the \<open>userId\<close> of the direct owners of the resource and
  of the direct owners of the root directory that the walk reaches (the first directory
  named \<open>petVideosDirectory\<close> on a path of \<open>MEMBEROF\<close> edges), each owner vertex once;
  the owners of the ancestors in between are not in it. In a forest the contributors
  are at most two, the resource and that root, and so at most N+1 for a resource at
  ancestor depth N that is not itself named \<open>petVideosDirectory\<close>.
\<close>

theorem owners_of_resource_and_root:
  assumes "walk_ends g rank"
  shows "(is_resource g ''directory'' v_directoryId n v i p \<longrightarrow>
            (\<exists>d os. query_directory_info (Connected g) n = Returns (Some d) \<and>
                 directory.owner_id d = values_step g v_userId os \<and> distinct os \<and>
                 set os = {o'. \<exists>s. (o', ''OWNER'', s) \<in> set (edges g) \<and> (s = v \<or> reaches_root g v s)} \<and>
                 (forest g \<longrightarrow> card {s. s = v \<or> reaches_root g v s} \<le> 2 \<and>
                    (\<forall>k chain. spec_ancestor_chain g k v = Inr chain \<and>
                         v_name (vertex_of g v) \<noteq> Some ''petVideosDirectory''
                       \<longrightarrow> card {s. s = v \<or> reaches_root g v s} \<le> length chain + 1)))) \<and>
         (is_resource g ''video'' v_videoId n' v' i' p' \<longrightarrow>
            (\<exists>d os. query_video_info (Connected g) n' = Returns (Some d) \<and>
                 video.owner_id d = values_step g v_userId os \<and> distinct os \<and>
                 set os = {o'. \<exists>s. (o', ''OWNER'', s) \<in> set (edges g) \<and> (s = v' \<or> reaches_root g v' s)} \<and>
                 (forest g \<longrightarrow> card {s. s = v' \<or> reaches_root g v' s} \<le> 2 \<and>
                    (\<forall>k chain. spec_ancestor_chain g k v' = Inr chain \<and>
                         v_name (vertex_of g v') \<noteq> Some ''petVideosDirectory''
                       \<longrightarrow> card {s. s = v' \<or> reaches_root g v' s} \<le> length chain + 1))))"
proof -
  have owners: "distinct (dedup (in_step g ''OWNER'' [u] @ in_step g ''OWNER'' rs)) \<and>
      set (dedup (in_step g ''OWNER'' [u] @ in_step g ''OWNER'' rs)) =
        {o'. \<exists>s. (o', ''OWNER'', s) \<in> set (edges g) \<and> (s = u \<or> reaches_root g u s)}"
    if "to_root g [u] = Some rs" for u rs
    using to_root_set[OF that] by (auto simp: distinct_dedup set_dedup set_in_step)
  have bound: "forest g \<longrightarrow> card {s. s = u \<or> reaches_root g u s} \<le> 2 \<and>
                    (\<forall>k chain. spec_ancestor_chain g k u = Inr chain \<and>
                         v_name (vertex_of g u) \<noteq> Some ''petVideosDirectory''
                       \<longrightarrow> card {s. s = u \<or> reaches_root g u s} \<le> length chain + 1)" for u
    using contributors_at_most_two[of g u] contributors_depth[of g _ u] by blast
  show ?thesis
  proof (intro conjI impI)
    assume res: "is_resource g ''directory'' v_directoryId n v i p"
    from to_root_returns[OF assms] obtain rs where rs: "to_root g [v] = Some rs" by blast
    show "\<exists>d os. query_directory_info (Connected g) n = Returns (Some d) \<and>
                 directory.owner_id d = values_step g v_userId os \<and> distinct os \<and>
                 set os = {o'. \<exists>s. (o', ''OWNER'', s) \<in> set (edges g) \<and> (s = v \<or> reaches_root g v s)} \<and>
                 (forest g \<longrightarrow> card {s. s = v \<or> reaches_root g v s} \<le> 2 \<and>
                    (\<forall>k chain. spec_ancestor_chain g k v = Inr chain \<and>
                         v_name (vertex_of g v) \<noteq> Some ''petVideosDirectory''
                       \<longrightarrow> card {s. s = v \<or> reaches_root g v s} \<le> length chain + 1))"
    proof (intro exI conjI)
      show "query_directory_info (Connected g) n = Returns (Some
          \<lparr>directory_id = i, directory_name = n, directory_vertex = v,
           directory.owner_id = values_step g v_userId (dedup (in_step g ''OWNER'' [v] @ in_step g ''OWNER'' rs)),
           directory.owner_name = values_step g v_name (dedup (in_step g ''OWNER'' [v] @ in_step g ''OWNER'' rs)),
           directory.parents_id = values_step g v_directoryId (dedup (out g ''MEMBEROF'' [v] @ rs)),
           directory.isPublic = p\<rparr>)"
        by (rule query_directory_info_resource[OF res rs])
      show "directory.owner_id \<lparr>directory_id = i, directory_name = n, directory_vertex = v,
           directory.owner_id = values_step g v_userId (dedup (in_step g ''OWNER'' [v] @ in_step g ''OWNER'' rs)),
           directory.owner_name = values_step g v_name (dedup (in_step g ''OWNER'' [v] @ in_step g ''OWNER'' rs)),
           directory.parents_id = values_step g v_directoryId (dedup (out g ''MEMBEROF'' [v] @ rs)),
           directory.isPublic = p\<rparr> =
         values_step g v_userId (dedup (in_step g ''OWNER'' [v] @ in_step g ''OWNER'' rs))"
        by simp
      show "distinct (dedup (in_step g ''OWNER'' [v] @ in_step g ''OWNER'' rs))"
        using owners[OF rs] by (rule conjunct1)
      show "set (dedup (in_step g ''OWNER'' [v] @ in_step g ''OWNER'' rs)) =
          {o'. \<exists>s. (o', ''OWNER'', s) \<in> set (edges g) \<and> (s = v \<or> reaches_root g v s)}"
        using owners[OF rs] by (rule conjunct2)
      show "forest g \<longrightarrow> card {s. s = v \<or> reaches_root g v s} \<le> 2 \<and>
                    (\<forall>k chain. spec_ancestor_chain g k v = Inr chain \<and>
                         v_name (vertex_of g v) \<noteq> Some ''petVideosDirectory''
                       \<longrightarrow> card {s. s = v \<or> reaches_root g v s} \<le> length chain + 1)"
        by (rule bound)
    qed
  next
    assume res: "is_resource g ''video'' v_videoId n' v' i' p'"
    from to_root_returns[OF assms] obtain rs where rs: "to_root g [v'] = Some rs" by blast
    show "\<exists>d os. query_video_info (Connected g) n' = Returns (Some d) \<and>
                 video.owner_id d = values_step g v_userId os \<and> distinct os \<and>
                 set os = {o'. \<exists>s. (o', ''OWNER'', s) \<in> set (edges g) \<and> (s = v' \<or> reaches_root g v' s)} \<and>
                 (forest g \<longrightarrow> card {s. s = v' \<or> reaches_root g v' s} \<le> 2 \<and>
                    (\<forall>k chain. spec_ancestor_chain g k v' = Inr chain \<and>
                         v_name (vertex_of g v') \<noteq> Some ''petVideosDirectory''
                       \<longrightarrow> card {s. s = v' \<or> reaches_root g v' s} \<le> length chain + 1))"
    proof (intro exI conjI)
      show "query_video_info (Connected g) n' = Returns (Some
          \<lparr>video_id = i', video_name = n', video_vertex = v',
           video.owner_id = values_step g v_userId (dedup (in_step g ''OWNER'' [v'] @ in_step g ''OWNER'' rs)),
           video.owner_name = values_step g v_name (dedup (in_step g ''OWNER'' [v'] @ in_step g ''OWNER'' rs)),
           video.parents_id = values_step g v_directoryId (dedup (out g ''MEMBEROF'' [v'] @ rs)),
           video.isPublic = p'\<rparr>)"
        by (rule query_video_info_resource[OF res rs])
      show "video.owner_id \<lparr>video_id = i', video_name = n', video_vertex = v',
           video.owner_id = values_step g v_userId (dedup (in_step g ''OWNER'' [v'] @ in_step g ''OWNER'' rs)),
           video.owner_name = values_step g v_name (dedup (in_step g ''OWNER'' [v'] @ in_step g ''OWNER'' rs)),
           video.parents_id = values_step g v_directoryId (dedup (out g ''MEMBEROF'' [v'] @ rs)),
           video.isPublic = p'\<rparr> =
         values_step g v_userId (dedup (in_step g ''OWNER'' [v'] @ in_step g ''OWNER'' rs))"
        by simp
      show "distinct (dedup (in_step g ''OWNER'' [v'] @ in_step g ''OWNER'' rs))"
        using owners[OF rs] by (rule conjunct1)
      show "set (dedup (in_step g ''OWNER'' [v'] @ in_step g ''OWNER'' rs)) =
          {o'. \<exists>s. (o', ''OWNER'', s) \<in> set (edges g) \<and> (s = v' \<or> reaches_root g v' s)}"
        using owners[OF rs] by (rule conjunct2)
      show "forest g \<longrightarrow> card {s. s = v' \<or> reaches_root g v' s} \<le> 2 \<and>
                    (\<forall>k chain. spec_ancestor_chain g k v' = Inr chain \<and>
                         v_name (vertex_of g v') \<noteq> Some ''petVideosDirectory''
                       \<longrightarrow> card {s. s = v' \<or> reaches_root g v' s} \<le> length chain + 1)"
        by (rule bound)
    qed
  qed
qed

theorem owners_of_resource_and_root_witness:
  "walk_ends deep_graph (\<lambda>v. v) \<and>
   is_resource deep_graph ''directory'' v_directoryId ''sub'' 3 ''d-sub'' False \<and>
   is_resource deep_graph ''video'' v_videoId ''clip.mp4'' 4 ''v-clip'' False \<and>
   forest deep_graph \<and>
   spec_ancestor_chain deep_graph 5 3 = Inr [2, 1] \<and>
   spec_ancestor_chain deep_graph 5 4 = Inr [3, 2, 1] \<and>
   (\<exists>d os. query_directory_info (Connected deep_graph) ''sub'' = Returns (Some d) \<and>
       directory.owner_id d = values_step deep_graph v_userId os \<and> distinct os \<and>
       set os = {o'. \<exists>s. (o', ''OWNER'', s) \<in> set (edges deep_graph) \<and> (s = 3 \<or> reaches_root deep_graph 3 s)} \<and>
       card {s. s = 3 \<or> reaches_root deep_graph 3 s} \<le> 2 \<and>
       card {s. s = 3 \<or> reaches_root deep_graph 3 s} \<le> length [2, 1 :: nat] + 1) \<and>
   (\<exists>d os. query_video_info (Connected deep_graph) ''clip.mp4'' = Returns (Some d) \<and>
       video.owner_id d = values_step deep_graph v_userId os \<and> distinct os \<and>
       set os = {o'. \<exists>s. (o', ''OWNER'', s) \<in> set (edges deep_graph) \<and> (s = 4 \<or> reaches_root deep_graph 4 s)} \<and>
       card {s. s = 4 \<or> reaches_root deep_graph 4 s} \<le> 2 \<and>
       card {s. s = 4 \<or> reaches_root deep_graph 4 s} \<le> length [3, 2, 1 :: nat] + 1)"
proof -
  have w: "walk_ends deep_graph (\<lambda>v. v)"
    by (simp add: walk_ends_def deep_graph_def mk_directory_def mk_user_def mk_video_def)
  have r: "is_resource deep_graph ''directory'' v_directoryId ''sub'' 3 ''d-sub'' False"
    and c: "is_resource deep_graph ''video'' v_videoId ''clip.mp4'' 4 ''v-clip'' False"
    by (simp_all add: is_resource_def deep_graph_def sample_graph_defs)
  have f: "forest deep_graph"
    by (simp add: forest_def deep_graph_def out_def)
  have c3: "spec_ancestor_chain deep_graph 5 3 = Inr [2, 1]"
    and c4: "spec_ancestor_chain deep_graph 5 4 = Inr [3, 2, 1]"
    by code_simp+
  have n3: "v_name (vertex_of deep_graph 3) \<noteq> Some ''petVideosDirectory''"
    and n4: "v_name (vertex_of deep_graph 4) \<noteq> Some ''petVideosDirectory''"
    by (simp_all add: deep_graph_def mk_directory_def mk_video_def)
  note t = owners_of_resource_and_root [OF w, of "''sub''" 3 "''d-sub''" False
      "''clip.mp4''" 4 "''v-clip''" False]
  from t r obtain d os where d: "query_directory_info (Connected deep_graph) ''sub'' = Returns (Some d)"
      "directory.owner_id d = values_step deep_graph v_userId os" "distinct os"
      "set os = {o'. \<exists>s. (o', ''OWNER'', s) \<in> set (edges deep_graph) \<and> (s = 3 \<or> reaches_root deep_graph 3 s)}"
    and db: "forest deep_graph \<longrightarrow> card {s. s = 3 \<or> reaches_root deep_graph 3 s} \<le> 2 \<and>
       (\<forall>k chain. spec_ancestor_chain deep_graph k 3 = Inr chain \<and>
            v_name (vertex_of deep_graph 3) \<noteq> Some ''petVideosDirectory''
          \<longrightarrow> card {s. s = 3 \<or> reaches_root deep_graph 3 s} \<le> length chain + 1)"
    by blast
  from t c obtain d' os' where d': "query_video_info (Connected deep_graph) ''clip.mp4'' = Returns (Some d')"
      "video.owner_id d' = values_step deep_graph v_userId os'" "distinct os'"
      "set os' = {o'. \<exists>s. (o', ''OWNER'', s) \<in> set (edges deep_graph) \<and> (s = 4 \<or> reaches_root deep_graph 4 s)}"
    and db': "forest deep_graph \<longrightarrow> card {s. s = 4 \<or> reaches_root deep_graph 4 s} \<le> 2 \<and>
       (\<forall>k chain. spec_ancestor_chain deep_graph k 4 = Inr chain \<and>
            v_name (vertex_of deep_graph 4) \<noteq> Some ''petVideosDirectory''
          \<longrightarrow> card {s. s = 4 \<or> reaches_root deep_graph 4 s} \<le> length chain + 1)"
    by blast
  from db f c3 n3 have b3: "card {s. s = 3 \<or> reaches_root deep_graph 3 s} \<le> 2"
      "card {s. s = 3 \<or> reaches_root deep_graph 3 s} \<le> length [2, 1 :: nat] + 1"
    by blast+
  from db' f c4 n4 have b4: "card {s. s = 4 \<or> reaches_root deep_graph 4 s} \<le> 2"
      "card {s. s = 4 \<or> reaches_root deep_graph 4 s} \<le> length [3, 2, 1 :: nat] + 1"
    by blast+
  from d b3 have e3: "\<exists>d os. query_directory_info (Connected deep_graph) ''sub'' = Returns (Some d) \<and>
       directory.owner_id d = values_step deep_graph v_userId os \<and> distinct os \<and>
       set os = {o'. \<exists>s. (o', ''OWNER'', s) \<in> set (edges deep_graph) \<and> (s = 3 \<or> reaches_root deep_graph 3 s)} \<and>
       card {s. s = 3 \<or> reaches_root deep_graph 3 s} \<le> 2 \<and>
       card {s. s = 3 \<or> reaches_root deep_graph 3 s} \<le> length [2, 1 :: nat] + 1"
    by (intro exI[of _ d] exI[of _ os] conjI)
  from d' b4 have e4: "\<exists>d os. query_video_info (Connected deep_graph) ''clip.mp4'' = Returns (Some d) \<and>
       video.owner_id d = values_step deep_graph v_userId os \<and> distinct os \<and>
       set os = {o'. \<exists>s. (o', ''OWNER'', s) \<in> set (edges deep_graph) \<and> (s = 4 \<or> reaches_root deep_graph 4 s)} \<and>
       card {s. s = 4 \<or> reaches_root deep_graph 4 s} \<le> 2 \<and>
       card {s. s = 4 \<or> reaches_root deep_graph 4 s} \<le> length [3, 2, 1 :: nat] + 1"
    by (intro exI[of _ d'] exI[of _ os'] conjI)
  from w r c f c3 c4 e3 e4 show ?thesis by (intro conjI)
qed

section \<open>The ancestor chain\<close>

text \<open>
  C4, as stated, fails on the video clip.mp4, three levels below the root: the chain
  of the specification is sub, mid, root, and the \<open>parents_id\<close> that \<open>query_video_info\<close>
  returns leaves mid out.
\<close>

theorem intermediate_ancestor_left_out:
  "query_video_info (Connected deep_graph) ''clip.mp4'' =
     Returns (Some \<lparr>video_id = ''v-clip'', video_name = ''clip.mp4'', video_vertex = 4,
       video.owner_id = [], video.owner_name = [],
       video.parents_id = [''d-sub'', ''d-root''], video.isPublic = False\<rparr>) \<and>
   spec_parents_id deep_graph 5 4 = Inr [''d-sub'', ''d-mid'', ''d-root'']"
  by code_simp

text \<open>
  C4, amended. For every resource (directory or video) that its name and its id single
  out, in a forest where the walk ends, the \<open>parents_id\<close> list holds the
  \<open>directoryId\<close> of the immediate parent of the resource, if it has one, followed by
  that of the root directory that the walk reaches (the first directory named
  \<open>petVideosDirectory\<close> on the path of \<open>MEMBEROF\<close> edges), unless that root is the
  immediate parent; the ancestors between the immediate parent and the root are not
  in it.
\<close>

theorem parents_are_parent_and_root:
  assumes "walk_ends g rank" and "forest g"
  shows "(is_resource g ''directory'' v_directoryId n v i p \<longrightarrow>
            (\<exists>d rs. query_directory_info (Connected g) n = Returns (Some d) \<and>
                 directory.parents_id d = values_step g v_directoryId (dedup (out g ''MEMBEROF'' [v] @ rs)) \<and>
                 length (out g ''MEMBEROF'' [v]) \<le> 1 \<and> length rs \<le> 1 \<and>
                 set rs = {r. reaches_root g v r})) \<and>
         (is_resource g ''video'' v_videoId n' v' i' p' \<longrightarrow>
            (\<exists>d rs. query_video_info (Connected g) n' = Returns (Some d) \<and>
                 video.parents_id d = values_step g v_directoryId (dedup (out g ''MEMBEROF'' [v'] @ rs)) \<and>
                 length (out g ''MEMBEROF'' [v']) \<le> 1 \<and> length rs \<le> 1 \<and>
                 set rs = {r. reaches_root g v' r}))"
proof (intro conjI impI)
  assume res: "is_resource g ''directory'' v_directoryId n v i p"
  from to_root_returns[OF assms(1)] obtain rs where rs: "to_root g [v] = Some rs" by blast
  show "\<exists>d rs. query_directory_info (Connected g) n = Returns (Some d) \<and>
                 directory.parents_id d = values_step g v_directoryId (dedup (out g ''MEMBEROF'' [v] @ rs)) \<and>
                 length (out g ''MEMBEROF'' [v]) \<le> 1 \<and> length rs \<le> 1 \<and>
                 set rs = {r. reaches_root g v r}"
  proof (intro exI conjI)
    show "query_directory_info (Connected g) n = Returns (Some
          \<lparr>directory_id = i, directory_name = n, directory_vertex = v,
           directory.owner_id = values_step g v_userId (dedup (in_step g ''OWNER'' [v] @ in_step g ''OWNER'' rs)),
           directory.owner_name = values_step g v_name (dedup (in_step g ''OWNER'' [v] @ in_step g ''OWNER'' rs)),
           directory.parents_id = values_step g v_directoryId (dedup (out g ''MEMBEROF'' [v] @ rs)),
           directory.isPublic = p\<rparr>)"
      by (rule query_directory_info_resource[OF res rs])
    show "directory.parents_id \<lparr>directory_id = i, directory_name = n, directory_vertex = v,
           directory.owner_id = values_step g v_userId (dedup (in_step g ''OWNER'' [v] @ in_step g ''OWNER'' rs)),
           directory.owner_name = values_step g v_name (dedup (in_step g ''OWNER'' [v] @ in_step g ''OWNER'' rs)),
           directory.parents_id = values_step g v_directoryId (dedup (out g ''MEMBEROF'' [v] @ rs)),
           directory.isPublic = p\<rparr> =
         values_step g v_directoryId (dedup (out g ''MEMBEROF'' [v] @ rs))"
      by simp
    show "length (out g ''MEMBEROF'' [v]) \<le> 1" by (rule forest_out[OF assms(2)])
    show "length rs \<le> 1" using to_root_forest[OF assms(2) rs] by simp
    show "set rs = {r. reaches_root g v r}" using to_root_set[OF rs] by simp
  qed
next
  assume res: "is_resource g ''video'' v_videoId n' v' i' p'"
  from to_root_returns[OF assms(1)] obtain rs where rs: "to_root g [v'] = Some rs" by blast
  show "\<exists>d rs. query_video_info (Connected g) n' = Returns (Some d) \<and>
                 video.parents_id d = values_step g v_directoryId (dedup (out g ''MEMBEROF'' [v'] @ rs)) \<and>
                 length (out g ''MEMBEROF'' [v']) \<le> 1 \<and> length rs \<le> 1 \<and>
                 set rs = {r. reaches_root g v' r}"
  proof (intro exI conjI)
    show "query_video_info (Connected g) n' = Returns (Some
          \<lparr>video_id = i', video_name = n', video_vertex = v',
           video.owner_id = values_step g v_userId (dedup (in_step g ''OWNER'' [v'] @ in_step g ''OWNER'' rs)),
           video.owner_name = values_step g v_name (dedup (in_step g ''OWNER'' [v'] @ in_step g ''OWNER'' rs)),
           video.parents_id = values_step g v_directoryId (dedup (out g ''MEMBEROF'' [v'] @ rs)),
           video.isPublic = p'\<rparr>)"
      by (rule query_video_info_resource[OF res rs])
    show "video.parents_id \<lparr>video_id = i', video_name = n', video_vertex = v',
           video.owner_id = values_step g v_userId (dedup (in_step g ''OWNER'' [v'] @ in_step g ''OWNER'' rs)),
           video.owner_name = values_step g v_name (dedup (in_step g ''OWNER'' [v'] @ in_step g ''OWNER'' rs)),
           video.parents_id = values_step g v_directoryId (dedup (out g ''MEMBEROF'' [v'] @ rs)),
           video.isPublic = p'\<rparr> =
         values_step g v_directoryId (dedup (out g ''MEMBEROF'' [v'] @ rs))"
      by simp
    show "length (out g ''MEMBEROF'' [v']) \<le> 1" by (rule forest_out[OF assms(2)])
    show "length rs \<le> 1" using to_root_forest[OF assms(2) rs] by simp
    show "set rs = {r. reaches_root g v' r}" using to_root_set[OF rs] by simp
  qed
qed

theorem parents_are_parent_and_root_witness:
  "walk_ends deep_graph (\<lambda>v. v) \<and> forest deep_graph \<and>
   is_resource deep_graph ''directory'' v_directoryId ''sub'' 3 ''d-sub'' False \<and>
   is_resource deep_graph ''video'' v_videoId ''clip.mp4'' 4 ''v-clip'' False \<and>
   (\<exists>d rs. query_directory_info (Connected deep_graph) ''sub'' = Returns (Some d) \<and>
       directory.parents_id d = values_step deep_graph v_directoryId (dedup (out deep_graph ''MEMBEROF'' [3] @ rs)) \<and>
       length (out deep_graph ''MEMBEROF'' [3]) \<le> 1 \<and> length rs \<le> 1 \<and>
       set rs = {r. reaches_root deep_graph 3 r}) \<and>
   (\<exists>d rs. query_video_info (Connected deep_graph) ''clip.mp4'' = Returns (Some d) \<and>
       video.parents_id d = values_step deep_graph v_directoryId (dedup (out deep_graph ''MEMBEROF'' [4] @ rs)) \<and>
       length (out deep_graph ''MEMBEROF'' [4]) \<le> 1 \<and> length rs \<le> 1 \<and>
       set rs = {r. reaches_root deep_graph 4 r})"
proof -
  have w: "walk_ends deep_graph (\<lambda>v. v)"
    by (simp add: walk_ends_def deep_graph_def mk_directory_def mk_user_def mk_video_def)
  have f: "forest deep_graph"
    by (simp add: forest_def deep_graph_def out_def)
  have r: "is_resource deep_graph ''directory'' v_directoryId ''sub'' 3 ''d-sub'' False"
    and c: "is_resource deep_graph ''video'' v_videoId ''clip.mp4'' 4 ''v-clip'' False"
    by (simp_all add: is_resource_def deep_graph_def sample_graph_defs)
  note t = parents_are_parent_and_root [OF w f, of "''sub''" 3 "''d-sub''" False
      "''clip.mp4''" 4 "''v-clip''" False]
  from t r have a: "\<exists>d rs. query_directory_info (Connected deep_graph) ''sub'' = Returns (Some d) \<and>
       directory.parents_id d = values_step deep_graph v_directoryId (dedup (out deep_graph ''MEMBEROF'' [3] @ rs)) \<and>
       length (out deep_graph ''MEMBEROF'' [3]) \<le> 1 \<and> length rs \<le> 1 \<and>
       set rs = {r. reaches_root deep_graph 3 r}"
    by (rule conjunct1[THEN mp])
  from t c have b: "\<exists>d rs. query_video_info (Connected deep_graph) ''clip.mp4'' = Returns (Some d) \<and>
       video.parents_id d = values_step deep_graph v_directoryId (dedup (out deep_graph ''MEMBEROF'' [4] @ rs)) \<and>
       length (out deep_graph ''MEMBEROF'' [4]) \<le> 1 \<and> length rs \<le> 1 \<and>
       set rs = {r. reaches_root deep_graph 4 r}"
    by (rule conjunct2[THEN mp])
  from w f r c a b show ?thesis by (intro conjI)
qed


section \<open>The handler\<close>

lemma handler_after_request:
  "resolve_request w ev = Returns (Inr (ps, action, dn, vn)) \<Longrightarrow>
   handler w ev = handler_check w ev ps action dn vn"
  by (simp add: handler_def)

lemma handler_check_directory_raises:
  "py_truthy dn \<Longrightarrow> lookup_directory (store w) dn = Raises e \<Longrightarrow>
   handler_check w ev ps action dn vn = ([QueryDirectory dn], Raises e)"
  by (simp add: handler_check_def check_exists_def)

lemma handler_check_video_raises:
  "\<not> py_truthy dn \<Longrightarrow> py_truthy vn \<Longrightarrow> lookup_video (store w) vn = Raises e \<Longrightarrow>
   handler_check w ev ps action dn vn = ([QueryVideo vn], Raises e)"
  by (simp add: handler_check_def check_exists_def)

lemma handler_check_directory_decision:
  assumes "py_truthy dn" "lookup_directory (store w) dn = Returns (Some d)"
    "truthy (event.headers ev ''id-token'') = Some tok"
  shows "handler_check w ev ps ''ViewDirectory'' dn vn =
     (case respond (permissions_check_token_directory w ps tok ''ViewDirectory'' (Some d)) of
        (tr, r) \<Rightarrow> ([QueryDirectory dn, QueryDirectory dn] @ tr, r))"
  using assms
  by (simp add: handler_check_def check_exists_def resolve_def handler_decision_def)

lemma handler_check_video_decision:
  assumes "\<not> py_truthy dn" "py_truthy vn" "lookup_video (store w) vn = Returns (Some v)"
    "truthy (event.headers ev ''id-token'') = Some tok"
  shows "handler_check w ev ps ''ViewVideo'' dn vn =
     (case respond (permissions_check_token_video w ps tok ''ViewVideo'' (Some v)) of
        (tr, r) \<Rightarrow> ([QueryVideo vn, QueryVideo vn] @ tr, r))"
  using assms
  by (simp add: handler_check_def check_exists_def resolve_def handler_decision_def)


lemma directory_args_returns: "\<exists>args. directory_args ps tok a vd = Inr args"
  unfolding directory_args_def Let_def attribute_value_entity_set
  by (cases vd) simp_all

lemma video_args_returns: "\<exists>args. video_args ps tok a vd = Inr args"
  unfolding video_args_def Let_def attribute_value_entity_set
  by (cases vd) simp_all

lemma deep_sub_info:
  "query_directory_info (Connected deep_graph) ''sub'' =
     Returns (Some \<lparr>directory_id = ''d-sub'', directory_name = ''sub'', directory_vertex = 3,
       directory.owner_id = [], directory.owner_name = [],
       directory.parents_id = [''d-mid'', ''d-root''], directory.isPublic = False\<rparr>)"
  by code_simp

lemma deep_clip_info:
  "query_video_info (Connected deep_graph) ''clip.mp4'' =
     Returns (Some \<lparr>video_id = ''v-clip'', video_name = ''clip.mp4'', video_vertex = 4,
       video.owner_id = [], video.owner_name = [],
       video.parents_id = [''d-sub'', ''d-root''], video.isPublic = False\<rparr>)"
  by code_simp









text \<open>What the existence check answers for the name it selects.\<close>

lemma selected_name_absent:
  assumes "resolve_request w ev = Returns (Inr (ps, action, dn, vn))"
    and "store w = Connected g"
  shows "(dn = PStr n \<and> n \<noteq> [] \<and> has g v_name n (hasLabel g ''directory'' (V g)) = [] \<longrightarrow>
            handler w ev = ([QueryDirectory dn],
              Returns (Some (format_response ''Invalid input -- directory doesn't exist'' 400)))) \<and>
         (\<not> py_truthy dn \<and> vn = PStr n' \<and> n' \<noteq> [] \<and>
            has g v_name n' (hasLabel g ''video'' (V g)) = [] \<longrightarrow>
            handler w ev = ([QueryVideo vn],
              Returns (Some (format_response ''Invalid input -- video doesn't exist'' 400))))"
  using assms
  by (auto simp: handler_after_request handler_check_def check_exists_def
        lookup_directory_def lookup_video_def query_directory_info_def query_video_info_def)

text \<open>
  C3, as stated, fails when the decision engine cannot be reached: the handler answers
  with status 401 and a message that begins as the answer to a refusal does.
\<close>

theorem engine_failure_answered_as_denied:
  "handler (sample_world (Connected deep_graph) engine_down)
       (sample_event ''/directory/get'' [''directoryName'' \<mapsto> ''petVideosDirectory'']) =
     ([QueryDirectory (PStr ''petVideosDirectory''), QueryDirectory (PStr ''petVideosDirectory''),
       IsAuthorizedWithToken
         [(''policyStoreId'', PStr ''ps-1''), (''identityToken'', PStr ''identity''),
          (''action'', PDict [(''actionType'', PStr ''PetVideosApp::Action''),
                              (''actionId'', PStr ''ViewDirectory'')]),
          (''resource'', PDict [(''entityType'', PStr ''PetVideosApp::Directory''),
                                (''entityId'', PStr ''d-root'')]),
          (''entities'', PDict [(''entityList'', PList [PDict
             [(''identifier'', PDict [(''entityType'', PStr ''PetVideosApp::Directory''),
                                      (''entityId'', PStr ''d-root'')]),
              (''attributes'', PDict [(''owner'', PDict [(''set'', PList [])]),
                                      (''isPublic'', PDict [(''boolean'', PBool False)])]),
              (''parents'', PList [])]])])]],
      Returns (Some (format_response
        ''Access denied -- permissions check failed - service unavailable'' 401)))"
  by code_simp

text \<open>
  C3, amended. In a request that has passed the configuration check, the action lookup
  and the decoding of the access token, an exception of hierarchy resolution (of
  \<open>query_directory_info\<close> or \<open>query_video_info\<close>, such as \<open>StoreUnavailable\<close>) leaves
  the handler as that exception, before any decision request; an exception raised in
  the decision path (such as \<open>PolicyEngineUnavailable\<close> from the engine call) does not:
  the handler catches it and answers with status 401 and the message of a refusal,
  \<open>Access denied -- permissions check failed\<close>, followed by a dash and the text of the
  exception.
\<close>

theorem resolution_failure_raised_engine_failure_caught:
  assumes "resolve_request w ev = Returns (Inr (ps, action, dn, vn))"
  shows
   "(py_truthy dn \<and> lookup_directory (store w) dn = Raises e \<longrightarrow>
       handler w ev = ([QueryDirectory dn], Raises e)) \<and>
    (\<not> py_truthy dn \<and> py_truthy vn \<and> lookup_video (store w) vn = Raises e \<longrightarrow>
       handler w ev = ([QueryVideo vn], Raises e)) \<and>
    (action = ''ViewDirectory'' \<and> py_truthy dn \<and>
       lookup_directory (store w) dn = Returns (Some d) \<and>
       truthy (event.headers ev ''id-token'') = Some tok \<and>
       directory_args ps tok action (Some d) = Inr args \<longrightarrow>
         (is_authorized_with_token w args = Inl (Exn c m) \<longrightarrow>
            handler w ev = ([QueryDirectory dn, QueryDirectory dn, IsAuthorizedWithToken args],
              Returns (Some (format_response (''Access denied -- permissions check failed - '' @ m) 401)))) \<and>
         (is_authorized_with_token w args = Inr resp \<and> avp_response.decision resp \<noteq> ''ALLOW'' \<longrightarrow>
            handler w ev = ([QueryDirectory dn, QueryDirectory dn, IsAuthorizedWithToken args],
              Returns (Some (format_response ''Access denied -- permissions check failed'' 401))))) \<and>
    (action = ''ViewVideo'' \<and> \<not> py_truthy dn \<and> py_truthy vn \<and>
       lookup_video (store w) vn = Returns (Some v) \<and>
       truthy (event.headers ev ''id-token'') = Some tok \<and>
       video_args ps tok action (Some v) = Inr args' \<longrightarrow>
         (is_authorized_with_token w args' = Inl (Exn c m) \<longrightarrow>
            handler w ev = ([QueryVideo vn, QueryVideo vn, IsAuthorizedWithToken args'],
              Returns (Some (format_response (''Access denied -- permissions check failed - '' @ m) 401)))) \<and>
         (is_authorized_with_token w args' = Inr resp \<and> avp_response.decision resp \<noteq> ''ALLOW'' \<longrightarrow>
            handler w ev = ([QueryVideo vn, QueryVideo vn, IsAuthorizedWithToken args'],
              Returns (Some (format_response ''Access denied -- permissions check failed'' 401)))))"
proof (intro conjI impI; (elim conjE)?)
  assume "py_truthy dn" "lookup_directory (store w) dn = Raises e"
  then show "handler w ev = ([QueryDirectory dn], Raises e)"
    by (simp add: handler_after_request[OF assms] handler_check_directory_raises)
next
  assume "\<not> py_truthy dn" "py_truthy vn" "lookup_video (store w) vn = Raises e"
  then show "handler w ev = ([QueryVideo vn], Raises e)"
    by (simp add: handler_after_request[OF assms] handler_check_video_raises)
next
  assume h: "action = ''ViewDirectory''" "py_truthy dn"
    "lookup_directory (store w) dn = Returns (Some d)"
    "truthy (event.headers ev ''id-token'') = Some tok"
    "directory_args ps tok action (Some d) = Inr args"
    and f: "is_authorized_with_token w args = Inl (Exn c m)"
  show "handler w ev = ([QueryDirectory dn, QueryDirectory dn, IsAuthorizedWithToken args],
      Returns (Some (format_response (''Access denied -- permissions check failed - '' @ m) 401)))"
    unfolding handler_after_request[OF assms] h(1)
      handler_check_directory_decision[OF h(2,3,4)]
    using h(5)[unfolded h(1)] f
    by (simp add: permissions_check_token_directory_def respond_def)
next
  assume h: "action = ''ViewDirectory''" "py_truthy dn"
    "lookup_directory (store w) dn = Returns (Some d)"
    "truthy (event.headers ev ''id-token'') = Some tok"
    "directory_args ps tok action (Some d) = Inr args"
    and f: "is_authorized_with_token w args = Inr resp" "avp_response.decision resp \<noteq> ''ALLOW''"
  show "handler w ev = ([QueryDirectory dn, QueryDirectory dn, IsAuthorizedWithToken args],
      Returns (Some (format_response ''Access denied -- permissions check failed'' 401)))"
    unfolding handler_after_request[OF assms] h(1)
      handler_check_directory_decision[OF h(2,3,4)]
    using h(5)[unfolded h(1)] f
    by (simp add: permissions_check_token_directory_def respond_def)
next
  assume h: "action = ''ViewVideo''" "\<not> py_truthy dn" "py_truthy vn"
    "lookup_video (store w) vn = Returns (Some v)"
    "truthy (event.headers ev ''id-token'') = Some tok"
    "video_args ps tok action (Some v) = Inr args'"
    and f: "is_authorized_with_token w args' = Inl (Exn c m)"
  show "handler w ev = ([QueryVideo vn, QueryVideo vn, IsAuthorizedWithToken args'],
      Returns (Some (format_response (''Access denied -- permissions check failed - '' @ m) 401)))"
    unfolding handler_after_request[OF assms] h(1)
      handler_check_video_decision[OF h(2,3,4,5)]
    using h(6)[unfolded h(1)] f
    by (simp add: permissions_check_token_video_def respond_def)
next
  assume h: "action = ''ViewVideo''" "\<not> py_truthy dn" "py_truthy vn"
    "lookup_video (store w) vn = Returns (Some v)"
    "truthy (event.headers ev ''id-token'') = Some tok"
    "video_args ps tok action (Some v) = Inr args'"
    and f: "is_authorized_with_token w args' = Inr resp" "avp_response.decision resp \<noteq> ''ALLOW''"
  show "handler w ev = ([QueryVideo vn, QueryVideo vn, IsAuthorizedWithToken args'],
      Returns (Some (format_response ''Access denied -- permissions check failed'' 401)))"
    unfolding handler_after_request[OF assms] h(1)
      handler_check_video_decision[OF h(2,3,4,5)]
    using h(6)[unfolded h(1)] f
    by (simp add: permissions_check_token_video_def respond_def)
qed

theorem resolution_failure_raised_engine_failure_caught_witness:
  "handler (sample_world Unavailable engine_deny)
       (sample_event ''/directory/get'' [''directoryName'' \<mapsto> ''sub'']) =
     ([QueryDirectory (PStr ''sub'')], Raises (Exn StoreUnavailable [])) \<and>
   handler (sample_world Unavailable engine_deny)
       (sample_event ''/video/get'' [''videoName'' \<mapsto> ''clip.mp4'']) =
     ([QueryVideo (PStr ''clip.mp4'')], Raises (Exn StoreUnavailable [])) \<and>
   snd (handler (sample_world (Connected deep_graph) engine_down)
       (sample_event ''/directory/get'' [''directoryName'' \<mapsto> ''sub''])) =
     Returns (Some (format_response ''Access denied -- permissions check failed - service unavailable'' 401)) \<and>
   snd (handler (sample_world (Connected deep_graph) engine_deny)
       (sample_event ''/directory/get'' [''directoryName'' \<mapsto> ''sub''])) =
     Returns (Some (format_response ''Access denied -- permissions check failed'' 401)) \<and>
   snd (handler (sample_world (Connected deep_graph) engine_down)
       (sample_event ''/video/get'' [''videoName'' \<mapsto> ''clip.mp4''])) =
     Returns (Some (format_response ''Access denied -- permissions check failed - service unavailable'' 401)) \<and>
   snd (handler (sample_world (Connected deep_graph) engine_deny)
       (sample_event ''/video/get'' [''videoName'' \<mapsto> ''clip.mp4''])) =
     Returns (Some (format_response ''Access denied -- permissions check failed'' 401))"
proof -
  let ?ed = "sample_event ''/directory/get'' [''directoryName'' \<mapsto> ''sub'']"
  let ?ev = "sample_event ''/video/get'' [''videoName'' \<mapsto> ''clip.mp4'']"
  let ?D = "\<lparr>directory_id = ''d-sub'', directory_name = ''sub'', directory_vertex = 3,
       directory.owner_id = [], directory.owner_name = [],
       directory.parents_id = [''d-mid'', ''d-root''], directory.isPublic = False\<rparr>"
  let ?V = "\<lparr>video_id = ''v-clip'', video_name = ''clip.mp4'', video_vertex = 4,
       video.owner_id = [], video.owner_name = [],
       video.parents_id = [''d-sub'', ''d-root''], video.isPublic = False\<rparr>"
  have rd: "resolve_request (sample_world r engine) ?ed =
      Returns (Inr (''ps-1'', ''ViewDirectory'', PStr ''sub'', PNone))"
    and rv: "resolve_request (sample_world r engine) ?ev =
      Returns (Inr (''ps-1'', ''ViewVideo'', PNone, PStr ''clip.mp4''))" for r engine
    by (simp_all add: resolve_request_def sample_world_def sample_event_def ACTIONS_def
          parameter_or_None_def)
  have td: "truthy (event.headers ?ed ''id-token'') = Some ''identity''"
    and tv: "truthy (event.headers ?ev ''id-token'') = Some ''identity''"
    by (simp_all add: sample_event_def)
  have st: "store (sample_world r engine) = r" for r engine
    by (simp add: sample_world_def)
  have en: "is_authorized_with_token (sample_world r engine) = engine" for r engine
    by (simp add: sample_world_def)
  have ld: "lookup_directory (Connected deep_graph) (PStr ''sub'') = Returns (Some ?D)"
    and lv: "lookup_video (Connected deep_graph) (PStr ''clip.mp4'') = Returns (Some ?V)"
    by (simp_all add: lookup_directory_def lookup_video_def deep_sub_info deep_clip_info)
  have ud: "lookup_directory Unavailable (PStr ''sub'') = Raises (Exn StoreUnavailable [])"
    and uv: "lookup_video Unavailable (PStr ''clip.mp4'') = Raises (Exn StoreUnavailable [])"
    by (simp_all add: lookup_directory_def lookup_video_def
          query_directory_info_def query_video_info_def)
  obtain ad where ad: "directory_args ''ps-1'' ''identity'' ''ViewDirectory'' (Some ?D) = Inr ad"
    using directory_args_returns by blast
  obtain av where av: "video_args ''ps-1'' ''identity'' ''ViewVideo'' (Some ?V) = Inr av"
    using video_args_returns by blast
  have down: "engine_down a = Inl (Exn PolicyEngineUnavailable ''service unavailable'')" for a
    by (simp add: engine_down_def)
  have deny: "engine_deny a = Inr \<lparr>avp_response.decision = ''DENY'', determiningPolicies = []\<rparr>" for a
    by (simp add: engine_deny_def)
  have c1: "handler (sample_world Unavailable engine_deny) ?ed =
      ([QueryDirectory (PStr ''sub'')], Raises (Exn StoreUnavailable []))"
    using resolution_failure_raised_engine_failure_caught [OF rd[of Unavailable engine_deny],
        where e = "Exn StoreUnavailable []"]
    by (simp add: st ud)
  have c2: "handler (sample_world Unavailable engine_deny) ?ev =
      ([QueryVideo (PStr ''clip.mp4'')], Raises (Exn StoreUnavailable []))"
    using resolution_failure_raised_engine_failure_caught [OF rv[of Unavailable engine_deny],
        where e = "Exn StoreUnavailable []"]
    by (simp add: st uv)
  have c3: "snd (handler (sample_world (Connected deep_graph) engine_down) ?ed) =
      Returns (Some (format_response ''Access denied -- permissions check failed - service unavailable'' 401))"
    using resolution_failure_raised_engine_failure_caught [OF rd[of "Connected deep_graph" engine_down],
        where d = ?D and tok = "''identity''" and args = ad
          and c = PolicyEngineUnavailable and m = "''service unavailable''"]
    by (simp add: st en td ld ad down)
  have c4: "snd (handler (sample_world (Connected deep_graph) engine_deny) ?ed) =
      Returns (Some (format_response ''Access denied -- permissions check failed'' 401))"
    using resolution_failure_raised_engine_failure_caught [OF rd[of "Connected deep_graph" engine_deny],
        where d = ?D and tok = "''identity''" and args = ad
          and resp = "\<lparr>avp_response.decision = ''DENY'', determiningPolicies = []\<rparr>"]
    by (simp add: st en td ld ad deny)
  have c5: "snd (handler (sample_world (Connected deep_graph) engine_down) ?ev) =
      Returns (Some (format_response ''Access denied -- permissions check failed - service unavailable'' 401))"
    using resolution_failure_raised_engine_failure_caught [OF rv[of "Connected deep_graph" engine_down],
        where v = ?V and tok = "''identity''" and args' = av
          and c = PolicyEngineUnavailable and m = "''service unavailable''"]
    by (simp add: st en tv lv av down)
  have c6: "snd (handler (sample_world (Connected deep_graph) engine_deny) ?ev) =
      Returns (Some (format_response ''Access denied -- permissions check failed'' 401))"
    using resolution_failure_raised_engine_failure_caught [OF rv[of "Connected deep_graph" engine_deny],
        where v = ?V and tok = "''identity''" and args' = av
          and resp = "\<lparr>avp_response.decision = ''DENY'', determiningPolicies = []\<rparr>"]
    by (simp add: st en tv lv av deny)
  from c1 c2 c3 c4 c5 c6 show ?thesis by (intro conjI)
qed

text \<open>
  C6 does not hold of the handler. A request on the route \<open>/video/get\<close> that names
  the existing directory sub and the video nope.mp4, which is absent from the graph, is
  not answered with the 400 of a missing resource: the existence check looks at the
  directory name first and at the video name only when there is none, so the video is
  never looked up; the variable \<open>video\<close> stays unbound, reading it raises inside the
  \<open>try\<close> of the decision path, and the answer is 401 with the message of a refusal
  followed by the text of that exception.
\<close>

theorem absent_video_beside_directory:
  "handler (sample_world (Connected deep_graph) engine_deny)
       (sample_event ''/video/get'' [''directoryName'' \<mapsto> ''sub'', ''videoName'' \<mapsto> ''nope.mp4'']) =
     ([QueryDirectory (PStr ''sub''), QueryDirectory (PStr ''sub'')],
      Returns (Some (format_response
        (''Access denied -- permissions check failed - cannot access local variable '' @ [CHR 0x27] @
         ''video'' @ [CHR 0x27] @ '' where it is not associated with a value'') 401))) \<and>
   query_video_info (Connected deep_graph) ''nope.mp4'' = Returns None"
  by code_simp




end
